theory Spec2Isabelle
  imports Complex_Main "HOL-Library.AList"
begin

section \<open>Subscription lifecycle (src/model/model.ts, Model.subscribe / Model.unsubscribe)\<close>

text \<open>
  The class \<open>Model\<close> keeps one field \<open>controller: AbortController | null\<close>.
  \<open>subscribe\<close> overwrites it with a new controller and hands that controller's signal to
  \<open>fetchEventSource\<close>; \<open>unsubscribe\<close> aborts the controller held in the field and sets
  the field to null. Controllers are objects, so they are references into a store: the
  store is the list \<open>aborted\<close> (one flag per controller ever created, the reference is
  the position). \<open>streams\<close> lists, for every \<open>fetchEventSource\<close> call made so far, the
  controller whose signal it was given. A stream delivers events as long as its signal
  is not aborted.
\<close>

record Model =
  controller :: "nat option"
  aborted :: "bool list"
  streams :: "nat list"

definition initModel :: Model where
  "initModel = \<lparr> controller = None, aborted = [], streams = [] \<rparr>"

text \<open>
  \<^verbatim>\<open>this.controller = new AbortController();
  await fetchEventSource(path, { ..., signal: this.controller.signal, ... });\<close>
\<close>

definition subscribe :: "Model \<Rightarrow> Model" where
  "subscribe m =
     (let c = length (aborted m)
      in m\<lparr> controller := Some c, aborted := aborted m @ [False], streams := streams m @ [c] \<rparr>)"

text \<open>
  \<^verbatim>\<open>this.controller?.abort();
  this.controller = null;\<close>
\<close>

definition unsubscribe :: "Model \<Rightarrow> Model" where
  "unsubscribe m =
     (case controller m of
        None \<Rightarrow> m\<lparr> controller := None \<rparr>
      | Some c \<Rightarrow> m\<lparr> aborted := (aborted m)[c := True], controller := None \<rparr>)"

definition liveStreams :: "Model \<Rightarrow> nat list" where
  "liveStreams m = filter (\<lambda>c. \<not> (aborted m ! c)) (streams m)"

text \<open>
  What the listeners of src/main.ts do with the model: the \<open>displayChannelEvent\<close>
  listener calls \<open>model.unsubscribe()\<close> and then \<open>model.subscribe(path, token)\<close>; the
  logout, \<open>displayWorkspaceEvent\<close> and \<open>deleteChannelEvent\<close> listeners call
  \<open>model.unsubscribe()\<close> alone.
\<close>

datatype listener = DisplayChannelEvent | UnsubscribeOnly

fun runListener :: "Model \<Rightarrow> listener \<Rightarrow> Model" where
  "runListener m DisplayChannelEvent = subscribe (unsubscribe m)"
| "runListener m UnsubscribeOnly = unsubscribe m"

definition controlled :: "Model \<Rightarrow> bool" where
  "controlled m \<longleftrightarrow>
     distinct (streams m) \<and>
     list_all (\<lambda>s. s < length (aborted m) \<and> (aborted m ! s \<or> controller m = Some s)) (streams m) \<and>
     (case controller m of None \<Rightarrow> True | Some c \<Rightarrow> c < length (aborted m))"

section \<open>JavaScript strings and numbers\<close>

text \<open>
  A JavaScript string is modelled as a \<open>string\<close> of one-byte characters, so the model
  covers the strings whose code units are below 256. \<open>s.endsWith(t)\<close> and
  \<open>s.substring(0, n)\<close> (a negative \<open>n\<close> counts as 0) are:
\<close>

definition endsWith :: "string \<Rightarrow> string \<Rightarrow> bool" where
  "endsWith s t \<longleftrightarrow> length t \<le> length s \<and> drop (length s - length t) s = t"

definition substring0 :: "string \<Rightarrow> int \<Rightarrow> string" where
  "substring0 s n = take (nat n) s"

text \<open>
  A JavaScript number that is the result of \<open>parseInt\<close> or of integer arithmetic on
  such results is an integer or NaN: \<open>None\<close> is NaN. Loss of precision beyond
  \<open>2 ^ 53\<close> is not modelled.
\<close>

type_synonym number = "int option"

definition isWhiteSpace :: "char \<Rightarrow> bool" where
  "isWhiteSpace c \<longleftrightarrow> c \<in> set [CHR 0x09, CHR 0x0A, CHR 0x0B, CHR 0x0C, CHR 0x0D, CHR '' '']"

definition digitValue :: "char \<Rightarrow> nat option" where
  "digitValue c =
     (let n = of_char c :: nat
      in if 48 \<le> n \<and> n \<le> 57 then Some (n - 48)
         else if 97 \<le> n \<and> n \<le> 122 then Some (n - 87)
         else if 65 \<le> n \<and> n \<le> 90 then Some (n - 55)
         else None)"

definition isRadixDigit :: "nat \<Rightarrow> char \<Rightarrow> bool" where
  "isRadixDigit R c = (case digitValue c of Some d \<Rightarrow> d < R | None \<Rightarrow> False)"

definition mathInt :: "nat \<Rightarrow> string \<Rightarrow> int" where
  "mathInt R z = foldl (\<lambda>a c. a * int R + int (case digitValue c of Some d \<Rightarrow> d | None \<Rightarrow> 0)) 0 z"

text \<open>
  \<open>parseInt(s)\<close> with no radix (ECMAScript, parseInt): leading white space is dropped,
  then an optional sign, then \<open>0x\<close> or \<open>0X\<close> selects radix 16, and the longest prefix of
  digits of the radix is read; with no digit the result is NaN.
\<close>

definition parseInt :: "string \<Rightarrow> number" where
  "parseInt s =
     (let s1 = dropWhile isWhiteSpace s;
          sgn = (case s1 of c # _ \<Rightarrow> if c = CHR ''-'' then - 1 else 1 | [] \<Rightarrow> 1) :: int;
          s2 = (case s1 of c # r \<Rightarrow> if c = CHR ''-'' \<or> c = CHR ''+'' then r else s1 | [] \<Rightarrow> s1);
          hex = (take 2 s2 = ''0x'' \<or> take 2 s2 = ''0X'');
          R = (if hex then 16 else 10) :: nat;
          s3 = (if hex then drop 2 s2 else s2);
          z = takeWhile (isRadixDigit R) s3
      in if z = [] then None else Some (sgn * mathInt R z))"

text \<open>\<open>n.toString()\<close> for an integer or NaN (decimal digits, a leading minus sign).\<close>

fun digitsOf :: "nat \<Rightarrow> string" where
  "digitsOf n = (if n < 10 then [char_of (48 + n)] else digitsOf (n div 10) @ [char_of (48 + n mod 10)])"

declare digitsOf.simps [simp del]

definition toString :: "number \<Rightarrow> string" where
  "toString x =
     (case x of
        None \<Rightarrow> ''NaN''
      | Some i \<Rightarrow> if i < 0 then CHR ''-'' # digitsOf (nat (- i)) else digitsOf (nat i))"

text \<open>The characters \<open>0\<close> to \<open>9\<close>, of which \<open>digitsOf\<close> builds its result.\<close>

definition isDigitChar :: "char \<Rightarrow> bool" where
  "isDigitChar c \<longleftrightarrow> 48 \<le> (of_char c :: nat) \<and> (of_char c :: nat) \<le> 57"

section \<open>Posts as the view receives them (src/view/postView.ts, src/model/model.ts)\<close>

text \<open>
  \<open>Metadata\<close>, the body of a post (\<open>PostBody\<close>) and \<open>ViewPost\<close>. An optional property
  is an \<open>option\<close>: \<open>None\<close> is \<open>undefined\<close>. \<open>pins\<close> is \<open>doc.extensions?.pins\<close>.
  Each property of \<open>doc.reactions\<close> is an array of user names or is absent.
\<close>

record Metadata =
  createdBy :: string
  createdAt :: int
  lastModifiedBy :: string
  lastModifiedAt :: int

record Reactions =
  smiles :: "string list option"
  likes :: "string list option"
  frowns :: "string list option"
  celebrates :: "string list option"

record PostBody =
  msg :: string
  parent :: "string option"
  reactions :: "Reactions option"
  pins :: "string list option"

record ViewPost =
  path :: string
  doc :: PostBody
  meta :: Metadata

text \<open>
  \<open>PostView.getReactions\<close>: the four counts, in the order smile, like, frown, celebrate;
  a property that is not an array counts 0, and so does every property of an undefined
  \<open>reactions\<close>.
\<close>

definition arrayLength :: "string list option \<Rightarrow> nat" where
  "arrayLength a = (case a of Some xs \<Rightarrow> length xs | None \<Rightarrow> 0)"

definition getReactions :: "Reactions option \<Rightarrow> nat list" where
  "getReactions r =
     (case r of
        Some rs \<Rightarrow> [arrayLength (smiles rs), arrayLength (likes rs),
                    arrayLength (frowns rs), arrayLength (celebrates rs)]
      | None \<Rightarrow> [0, 0, 0, 0])"

text \<open>\<open>PostView.getReacted\<close>: whether the user is in each of the four arrays.\<close>

definition arrayIncludes :: "string list option \<Rightarrow> string \<Rightarrow> bool" where
  "arrayIncludes a u = (case a of Some xs \<Rightarrow> u \<in> set xs | None \<Rightarrow> False)"

definition getReacted :: "Reactions option \<Rightarrow> string \<Rightarrow> bool list" where
  "getReacted r username =
     (case r of
        Some rs \<Rightarrow> [arrayIncludes (smiles rs) username, arrayIncludes (likes rs) username,
                    arrayIncludes (frowns rs) username, arrayIncludes (celebrates rs) username]
      | None \<Rightarrow> [False, False, False, False])"

section \<open>The post component (class PostItem)\<close>

text \<open>
  A \<open>PostItem\<close> is an object: the view's two maps, the page and the \<open>childrenItems\<close>
  arrays of other items all refer to the same item, and \<open>addReply\<close>, \<open>updateReactions\<close>
  and \<open>togglePin\<close> mutate it in place. Items therefore live in a store, and a reference
  is a natural number.

  Of an item's shadow tree the model keeps the elements that carry an id, in document
  order (the ids of the template of src/html/index.html, each extended by \<open>-\<close> and the
  post's path in the constructor), and the children of the \<open>.replies\<close> section. A button
  has a class list and the \<open>disabled\<close> flag; a count paragraph has its text. The message,
  the poster, the workspace and the channel play no part in the index and are left out,
  and so is a reply text area that may sit among the replies.
\<close>

datatype Element =
    Button (classList: "string list") (disabled: bool)
  | Paragraph (innerText: string)
  | Article

record PostItem =
  shadow :: "(string \<times> Element) list"
  reactors :: "Reactions option"
  postPath :: string
  postTime :: int
  parentOf :: string
  childrenItems :: "nat list"
  replies :: "nat list"

definition getElementById :: "PostItem \<Rightarrow> string \<Rightarrow> Element option" where
  "getElementById item i = map_of (shadow item) i"

definition setElement :: "string \<Rightarrow> Element \<Rightarrow> PostItem \<Rightarrow> PostItem" where
  "setElement i e item =
     item\<lparr> shadow := map (\<lambda>(j, x). if j = i then (j, e) else (j, x)) (shadow item) \<rparr>"

definition classList_add :: "string \<Rightarrow> string list \<Rightarrow> string list" where
  "classList_add c cl = (if c \<in> set cl then cl else cl @ [c])"

definition classList_remove :: "string \<Rightarrow> string list \<Rightarrow> string list" where
  "classList_remove c cl = removeAll c cl"

text \<open>
  The template, after the constructor has extended the ids and written the counts:
  a count that is not 0 is shown as its decimal text, a count of 0 leaves the paragraph
  empty.
\<close>

definition countText :: "nat list \<Rightarrow> nat \<Rightarrow> string" where
  "countText reactionNumbers i =
     (if i < length reactionNumbers \<and> reactionNumbers ! i \<noteq> 0
      then toString (Some (int (reactionNumbers ! i))) else '''')"

definition template :: "string \<Rightarrow> nat list \<Rightarrow> (string \<times> Element) list" where
  "template p reactionNumbers =
     [(''post-'' @ p, Article),
      (''smile-'' @ p, Button [''post-button''] False),
      (''smile-count-'' @ p, Paragraph (countText reactionNumbers 0)),
      (''frown-'' @ p, Button [''post-button''] False),
      (''frown-count-'' @ p, Paragraph (countText reactionNumbers 2)),
      (''like-'' @ p, Button [''post-button''] False),
      (''like-count-'' @ p, Paragraph (countText reactionNumbers 1)),
      (''celebrate-'' @ p, Button [''post-button''] False),
      (''celebrate-count-'' @ p, Paragraph (countText reactionNumbers 3)),
      (''reply-'' @ p, Button [''reply-button''] False),
      (''pin-'' @ p, Button [''pin-button''] False)]"

text \<open>
  \<open>PostItem.enablePostButton\<close>: the fields \<open>smileReaction\<close>, \<open>likeReaction\<close>,
  \<open>frownReaction\<close>, \<open>celebrateReaction\<close> and \<open>pinButton\<close> are the buttons with the ids
  \<open>smile-\<close>, \<open>like-\<close>, \<open>frown-\<close>, \<open>celebrate-\<close> and \<open>pin-\<close> followed by the item's own path.
\<close>

definition enablePostButton :: "string \<Rightarrow> PostItem \<Rightarrow> PostItem" where
  "enablePostButton reaction item =
     (if reaction \<in> set [''smile'', ''like'', ''frown'', ''celebrate'', ''pin'']
      then (case getElementById item (reaction @ ''-'' @ postPath item) of
              Some (Button cl d) \<Rightarrow> setElement (reaction @ ''-'' @ postPath item) (Button cl False) item
            | _ \<Rightarrow> item)
      else item)"

section \<open>The state of the view (class PostView) and the page\<close>

text \<open>
  \<open>heap\<close> is the store of post items and \<open>nextRef\<close> the next free reference. \<open>postArea\<close>
  lists the children of the \<open>#post-area\<close> section. The two JavaScript \<open>Map\<close>s are
  association lists in insertion order (a \<open>Map\<close> iterates in the order in which its keys
  were first set): \<open>Map.set\<close> is \<open>AList.update\<close>, which replaces the value of a key in
  place or adds the pair at the end, \<open>Map.delete\<close> is \<open>AList.delete\<close>, \<open>Map.get\<close> is
  \<open>map_of\<close>. \<open>errorLog\<close> collects the messages of \<open>console.error\<close>. The text area
  fields and the scroll position are left out. The elements \<open>#workspace-title\<close>,
  \<open>#channel-title\<close> and \<open>#username-header\<close> of the page are taken to exist, so the
  errors thrown when they are missing are not modelled; the name in
  \<open>#username-header\<close> is the parameter \<open>currUser\<close>.
\<close>

datatype error = Error string | DOMException string | RangeError string | SyntaxError string

record PostView =
  heap :: "nat \<Rightarrow> PostItem"
  nextRef :: nat
  postArea :: "nat list"
  allPostMapping :: "(string \<times> nat) list"
  pinnedPostMapping :: "(string \<times> nat) list"
  lastEventID :: string
  errorLog :: "string list"

text \<open>
  An operation that throws returns \<open>Inl\<close> with the error and the state at the moment
  of the throw: what it has mutated until then stays mutated.
\<close>

type_synonym 'a outcome = "(error \<times> PostView) + 'a"

definition noItem :: PostItem where
  "noItem = \<lparr> shadow = [], reactors = None, postPath = '''', postTime = 0, parentOf = '''',
              childrenItems = [], replies = [] \<rparr>"

definition initPostView :: PostView where
  "initPostView = \<lparr> heap = (\<lambda>_. noItem), nextRef = 0, postArea = [], allPostMapping = [],
                     pinnedPostMapping = [], lastEventID = '''', errorLog = [] \<rparr>"

definition updateItem :: "nat \<Rightarrow> (PostItem \<Rightarrow> PostItem) \<Rightarrow> PostView \<Rightarrow> PostView" where
  "updateItem r f st = st\<lparr> heap := (heap st)(r := f (heap st r)) \<rparr>"

subsection \<open>Arrays\<close>

text \<open>\<open>Array.prototype.at\<close>: a negative index counts from the end, out of range is undefined.\<close>

definition arrayAt :: "'a list \<Rightarrow> int \<Rightarrow> 'a option" where
  "arrayAt xs i =
     (let k = (if i < 0 then int (length xs) + i else i)
      in if 0 \<le> k \<and> k < int (length xs) then Some (xs ! nat k) else None)"

text \<open>
  \<^verbatim>\<open>var index = -1; xs.forEach((val, i) => { if (P(val)) { index = i; } });\<close>
\<close>

definition lastIndexWhere :: "('a \<Rightarrow> bool) \<Rightarrow> 'a list \<Rightarrow> int" where
  "lastIndexWhere P xs =
     foldl (\<lambda>index (i, val). if P val then int i else index) (- 1) (enumerate 0 xs)"

subsection \<open>Nodes of the page\<close>

text \<open>
  A node has at most one parent: inserting a node removes it from where it was. The
  parents that hold post items are the post area and the \<open>.replies\<close> section of an item.
  \<open>insertBefore\<close> and \<open>replaceChild\<close> throw \<open>NotFoundError\<close> when the reference child is
  not a child of the parent. \<open>Node.contains\<close> does not look into shadow trees, and the
  replies of an item are inside its shadow tree, so the post area contains exactly its
  children.
\<close>

datatype container = PostArea | RepliesOf nat

definition childNodes :: "container \<Rightarrow> PostView \<Rightarrow> nat list" where
  "childNodes c st = (case c of PostArea \<Rightarrow> postArea st | RepliesOf p \<Rightarrow> replies (heap st p))"

definition setChildNodes :: "container \<Rightarrow> nat list \<Rightarrow> PostView \<Rightarrow> PostView" where
  "setChildNodes c xs st =
     (case c of
        PostArea \<Rightarrow> st\<lparr> postArea := xs \<rparr>
      | RepliesOf p \<Rightarrow> updateItem p (\<lambda>item. item\<lparr> replies := xs \<rparr>) st)"

definition removeReply :: "nat \<Rightarrow> PostItem \<Rightarrow> PostItem" where
  "removeReply r item = item\<lparr> replies := removeAll r (replies item) \<rparr>"

definition detach :: "nat \<Rightarrow> PostView \<Rightarrow> PostView" where
  "detach r st =
     st\<lparr> postArea := removeAll r (postArea st), heap := removeReply r \<circ> heap st \<rparr>"

definition nextSibling :: "nat \<Rightarrow> nat list \<Rightarrow> nat option" where
  "nextSibling r xs = (case dropWhile (\<lambda>x. x \<noteq> r) xs of _ # n # _ \<Rightarrow> Some n | _ \<Rightarrow> None)"

definition insertAt :: "nat option \<Rightarrow> nat \<Rightarrow> nat list \<Rightarrow> nat list" where
  "insertAt ref r xs =
     (case ref of
        None \<Rightarrow> xs @ [r]
      | Some f \<Rightarrow> takeWhile (\<lambda>x. x \<noteq> f) xs @ r # dropWhile (\<lambda>x. x \<noteq> f) xs)"

definition appendChild :: "container \<Rightarrow> nat \<Rightarrow> PostView \<Rightarrow> PostView" where
  "appendChild c r st = (let st1 = detach r st in setChildNodes c (childNodes c st1 @ [r]) st1)"

definition insertBefore :: "container \<Rightarrow> nat \<Rightarrow> nat option \<Rightarrow> PostView \<Rightarrow> PostView outcome" where
  "insertBefore c r follows st =
     (case follows of
        None \<Rightarrow> Inr (appendChild c r st)
      | Some f \<Rightarrow>
          if f \<notin> set (childNodes c st) then Inl (DOMException ''NotFoundError'', st)
          else (let ref = (if f = r then nextSibling r (childNodes c st) else Some f);
                    st1 = detach r st
                in Inr (setChildNodes c (insertAt ref r (childNodes c st1)) st1)))"

definition replaceChild :: "container \<Rightarrow> nat \<Rightarrow> nat \<Rightarrow> PostView \<Rightarrow> PostView outcome" where
  "replaceChild c node child st =
     (if child \<notin> set (childNodes c st) then Inl (DOMException ''NotFoundError'', st)
      else (let ref0 = nextSibling child (childNodes c st);
                ref = (if ref0 = Some node then nextSibling node (childNodes c st) else ref0);
                st1 = detach node (detach child st)
            in Inr (setChildNodes c (insertAt ref node (childNodes c st1)) st1)))"

definition contains :: "container \<Rightarrow> nat \<Rightarrow> PostView \<Rightarrow> bool" where
  "contains c r st \<longleftrightarrow> r \<in> set (childNodes c st)"

subsection \<open>Constructing and extending post items\<close>

text \<open>
  \<open>new PostItem(postContent, poster, postTime, postPath, reactionNumbers, reactors,
  workspace, channel, children, parentPost)\<close>: a new object; every child is appended to
  its \<open>.replies\<close> section, which takes the child away from its former parent.
\<close>

definition newPostItem ::
  "int \<Rightarrow> string \<Rightarrow> nat list \<Rightarrow> Reactions option \<Rightarrow> nat list \<Rightarrow> string option \<Rightarrow>
   PostView \<Rightarrow> nat \<times> PostView" where
  "newPostItem postTime' postPath' reactionNumbers reactors' children parentPost st =
     (let r = nextRef st;
          item = \<lparr> shadow = template postPath' reactionNumbers,
                   reactors = reactors',
                   postPath = postPath',
                   postTime = postTime',
                   parentOf = (case parentPost of Some p \<Rightarrow> p | None \<Rightarrow> ''''),
                   childrenItems = children,
                   replies = [] \<rparr>;
          st1 = st\<lparr> heap := (heap st)(r := item), nextRef := Suc r \<rparr>
      in (r, fold (appendChild (RepliesOf r)) children st1))"

text \<open>
  \<open>PostItem.addReply\<close>: the post items among the replies and the new reply are sorted
  by post time (\<open>Array.prototype.sort\<close> is stable, and so is \<open>sort_key\<close>); the new reply
  is put before the item that follows the last item with its post time.
\<close>

definition addReply :: "nat \<Rightarrow> nat \<Rightarrow> PostView \<Rightarrow> PostView outcome" where
  "addReply this replyPost st =
     (let postItemChildren =
            sort_key (\<lambda>i. postTime (heap st i)) (replies (heap st this) @ [replyPost]);
          index = lastIndexWhere (\<lambda>val. postTime (heap st val) = postTime (heap st replyPost))
                    postItemChildren;
          follows = (if index = - 1 then None else arrayAt postItemChildren (index + 1))
      in case insertBefore (RepliesOf this) replyPost follows st of
           Inl e \<Rightarrow> Inl e
         | Inr st1 \<Rightarrow> Inr (updateItem this (\<lambda>item. item\<lparr> childrenItems := postItemChildren \<rparr>) st1))"

text \<open>\<open>PostItem.replaceReply\<close>.\<close>

definition replaceReply :: "nat \<Rightarrow> nat \<Rightarrow> nat \<Rightarrow> PostView \<Rightarrow> PostView outcome" where
  "replaceReply this newChild oldChild st = replaceChild (RepliesOf this) newChild oldChild st"

section \<open>Building the index from a snapshot (PostView.displayAllPosts)\<close>

text \<open>
  \<open>PostView.getPinnedPosts\<close>: the posts are sorted by \<open>createdAt\<close> and each goes to
  \<open>pinnedPosts\<close> or to \<open>generalPosts\<close>. \<open>pins.find((s) => s === currUser)\<close> yields the
  user name when it is in the array, and the test treats the empty name as false.
  \<open>pinnedPosts.find((s) => s.path === post.doc.parent)\<close> is consulted only when
  \<open>pins\<close> is not an array.
\<close>

definition classify :: "string \<Rightarrow> ViewPost list \<times> ViewPost list \<Rightarrow> ViewPost \<Rightarrow>
    ViewPost list \<times> ViewPost list" where
  "classify currUser acc post =
     (case acc of (pinnedPosts, generalPosts) \<Rightarrow>
        (case pins (doc post) of
           Some ps \<Rightarrow>
             if currUser \<in> set ps \<and> currUser \<noteq> '''' then (pinnedPosts @ [post], generalPosts)
             else (pinnedPosts, generalPosts @ [post])
         | None \<Rightarrow>
             if (case parent (doc post) of
                   Some q \<Rightarrow> q \<in> set (map path pinnedPosts)
                 | None \<Rightarrow> False)
             then (pinnedPosts @ [post], generalPosts)
             else (pinnedPosts, generalPosts @ [post])))"

definition getPinnedPosts :: "string \<Rightarrow> ViewPost list \<Rightarrow> ViewPost list \<times> ViewPost list \<Rightarrow>
    ViewPost list \<times> ViewPost list" where
  "getPinnedPosts currUser allPosts acc =
     foldl (classify currUser) acc (sort_key (\<lambda>p. createdAt (meta p)) allPosts)"

text \<open>
  The trees. \<open>displayAllPosts\<close> first maps every path to a fresh tree node (a later post
  with the same path replaces the node of an earlier one), then walks the posts again:
  a post whose \<open>parent\<close> is a non-empty string (\<open>parentPath\<close> is that string) has its
  node pushed to the children of the
  node of the parent, when the map has one, and is otherwise reported and skipped; any
  other post has its node pushed to the roots. A node is identified here by its post:
  \<open>nodeOf posts p\<close> is the post of \<open>pathToTree.get(p.path)\<close>.
\<close>

definition parentPath :: "ViewPost \<Rightarrow> string option" where
  "parentPath p =
     (case parent (doc p) of Some q \<Rightarrow> if q \<noteq> '''' then Some q else None | None \<Rightarrow> None)"

definition nodeOf :: "ViewPost list \<Rightarrow> ViewPost \<Rightarrow> ViewPost" where
  "nodeOf posts c = foldl (\<lambda>node p. if path p = path c then p else node) c posts"

definition treeRoots :: "ViewPost list \<Rightarrow> ViewPost list" where
  "treeRoots posts = map (nodeOf posts) (filter (\<lambda>p. parentPath p = None) posts)"

definition treeChildren :: "ViewPost list \<Rightarrow> ViewPost \<Rightarrow> ViewPost list" where
  "treeChildren posts n =
     map (nodeOf posts) (filter (\<lambda>c. parentPath c = Some (path n)) posts)"

definition parentMissing :: "ViewPost list \<Rightarrow> ViewPost \<Rightarrow> bool" where
  "parentMissing posts c =
     (case parentPath c of Some q \<Rightarrow> q \<notin> set (map path posts) | None \<Rightarrow> False)"

definition logMissingParents :: "ViewPost list \<Rightarrow> PostView \<Rightarrow> PostView" where
  "logMissingParents posts st =
     st\<lparr> errorLog := errorLog st @
           map (\<lambda>_. ''parent post tree not found in map'') (filter (parentMissing posts) posts) \<rparr>"

text \<open>
  \<open>PostView.makePostFromTree\<close>: the items of the children are made first, then the item
  of the node, which is entered in the pinned map or in the general map. The recursion
  follows the children of the nodes; it can only fail to end when two posts share a
  path, and JavaScript then throws a \<open>RangeError\<close> for the exhausted stack. The first
  argument bounds the depth, and \<open>displayAllPosts\<close> starts it above the number of posts,
  which no chain of distinct nodes reaches.
\<close>

definition markOne :: "string \<times> bool \<Rightarrow> PostItem \<Rightarrow> PostItem" where
  "markOne kr it =
     (case kr of (kind, reacted) \<Rightarrow>
        if reacted
        then (case getElementById it (kind @ ''-'' @ postPath it) of
                Some (Button cl d) \<Rightarrow>
                  setElement (kind @ ''-'' @ postPath it) (Button (classList_add ''reacted'' cl) d) it
              | _ \<Rightarrow> it)
        else it)"

definition markReacted :: "bool list \<Rightarrow> PostItem \<Rightarrow> PostItem" where
  "markReacted flags item =
     fold markOne (zip [''smile'', ''like'', ''frown'', ''celebrate''] flags) item"

definition mapSet :: "bool \<Rightarrow> string \<Rightarrow> nat \<Rightarrow> PostView \<Rightarrow> PostView" where
  "mapSet pinnedMap k r st =
     (if pinnedMap then st\<lparr> pinnedPostMapping := AList.update k r (pinnedPostMapping st) \<rparr>
      else st\<lparr> allPostMapping := AList.update k r (allPostMapping st) \<rparr>)"

definition mapDelete :: "bool \<Rightarrow> string \<Rightarrow> PostView \<Rightarrow> PostView" where
  "mapDelete pinnedMap k st =
     (if pinnedMap then st\<lparr> pinnedPostMapping := AList.delete k (pinnedPostMapping st) \<rparr>
      else st\<lparr> allPostMapping := AList.delete k (allPostMapping st) \<rparr>)"

fun makePostFromTree ::
    "nat \<Rightarrow> string \<Rightarrow> ViewPost list \<Rightarrow> bool \<Rightarrow> ViewPost \<Rightarrow> PostView \<Rightarrow> (nat \<times> PostView) outcome"
  and makeChildren ::
    "nat \<Rightarrow> string \<Rightarrow> ViewPost list \<Rightarrow> bool \<Rightarrow> ViewPost list \<Rightarrow> PostView \<Rightarrow>
     (nat list \<times> PostView) outcome"
where
  "makePostFromTree 0 currUser posts pinnedMap rootNode st =
     Inl (RangeError ''Maximum call stack size exceeded'', st)"
| "makePostFromTree (Suc depth) currUser posts pinnedMap rootNode st =
     (case makeChildren depth currUser posts pinnedMap (treeChildren posts rootNode) st of
        Inl e \<Rightarrow> Inl e
      | Inr (children, st1) \<Rightarrow>
          (case newPostItem (createdAt (meta rootNode)) (path rootNode)
                  (getReactions (reactions (doc rootNode))) (reactions (doc rootNode))
                  children (parent (doc rootNode)) st1 of
             (post, st2) \<Rightarrow>
               Inr (post,
                    mapSet pinnedMap (path rootNode) post
                      (updateItem post
                         (markReacted (getReacted (reactions (doc rootNode)) currUser)) st2))))"
| "makeChildren depth currUser posts pinnedMap [] st = Inr ([], st)"
| "makeChildren depth currUser posts pinnedMap (childNode # rest) st =
     (case makePostFromTree depth currUser posts pinnedMap childNode st of
        Inl e \<Rightarrow> Inl e
      | Inr (childPost, st1) \<Rightarrow>
          (case makeChildren depth currUser posts pinnedMap rest st1 of
             Inl e \<Rightarrow> Inl e
           | Inr (children, st2) \<Rightarrow> Inr (childPost # children, st2)))"

text \<open>
  \<^verbatim>\<open>roots.forEach((rootNode) => {
    const rootPost = this.makePostFromTree(workspace, channel, rootNode, pins);
    this.postArea.append(rootPost); });\<close>
\<close>

fun displayRoots ::
    "nat \<Rightarrow> string \<Rightarrow> ViewPost list \<Rightarrow> bool \<Rightarrow> ViewPost list \<Rightarrow> PostView \<Rightarrow> PostView outcome"
where
  "displayRoots depth currUser posts pinnedMap [] st = Inr st"
| "displayRoots depth currUser posts pinnedMap (rootNode # rest) st =
     (case makePostFromTree depth currUser posts pinnedMap rootNode st of
        Inl e \<Rightarrow> Inl e
      | Inr (rootPost, st1) \<Rightarrow>
          displayRoots depth currUser posts pinnedMap rest (appendChild PostArea rootPost st1))"

text \<open>
  \<open>PostView.displayAllPosts\<close>: the post area is emptied; the pinned posts, sorted by
  \<open>lastModifiedAt\<close>, are displayed first, then the general posts, sorted by \<open>createdAt\<close>.
  The two maps are not emptied.
\<close>

definition displayAllPosts :: "string \<Rightarrow> ViewPost list \<Rightarrow> PostView \<Rightarrow> PostView outcome" where
  "displayAllPosts currUser posts st =
     (case getPinnedPosts currUser posts ([], []) of
        (pinnedPosts0, generalPosts0) \<Rightarrow>
          (let pinnedPosts = sort_key (\<lambda>p. lastModifiedAt (meta p)) pinnedPosts0;
               generalPosts = sort_key (\<lambda>p. createdAt (meta p)) generalPosts0;
               depth = Suc (length posts)
           in case displayRoots depth currUser pinnedPosts True (treeRoots pinnedPosts)
                     (logMissingParents pinnedPosts (st\<lparr> postArea := [] \<rparr>)) of
                Inl e \<Rightarrow> Inl e
              | Inr st1 \<Rightarrow>
                  displayRoots depth currUser generalPosts False (treeRoots generalPosts)
                    (logMissingParents generalPosts st1)))"

section \<open>Updates (PostView.updatePosts, PostView.findReactor)\<close>

text \<open>
  \<open>PostView.findReactor\<close>. The callback of \<open>newReactions.forEach\<close> names its first
  parameter \<open>index\<close>, but \<open>forEach\<close> passes the element there: the loop runs over the four
  new counts and uses each count as the position to compare and as the selector of the
  switch. A comparison with \<open>undefined\<close> (a position outside the array) is false, which
  leads to the last branch. The result is a string or \<open>undefined\<close> (\<open>None\<close>).
\<close>

definition lastOf :: "string list option \<Rightarrow> string option \<Rightarrow> string option" where
  "lastOf a username = (case a of Some xs \<Rightarrow> arrayAt xs (int (length xs) - 1) | None \<Rightarrow> username)"

definition pickReactor :: "nat \<Rightarrow> Reactions option \<Rightarrow> string option \<Rightarrow> string option" where
  "pickReactor index rs username =
     (case rs of
        None \<Rightarrow> username
      | Some r \<Rightarrow>
          if index = 0 then lastOf (smiles r) username
          else if index = 1 then lastOf (likes r) username
          else if index = 2 then lastOf (frowns r) username
          else if index = 3 then lastOf (celebrates r) username
          else username)"

definition findReactorStep ::
    "nat list \<Rightarrow> nat list \<Rightarrow> Reactions option \<Rightarrow> Reactions option \<Rightarrow> string option \<Rightarrow> nat \<Rightarrow>
     string option" where
  "findReactorStep newReactions oldReactions newReactors oldReactors username index =
     (case (arrayAt newReactions (int index), arrayAt oldReactions (int index)) of
        (Some a, Some b) \<Rightarrow>
          if a > b then pickReactor index newReactors username
          else if a < b then pickReactor index oldReactors username
          else Some ''same''
      | _ \<Rightarrow> Some ''same'')"

definition findReactor ::
    "nat list \<Rightarrow> nat list \<Rightarrow> Reactions option \<Rightarrow> Reactions option \<Rightarrow> string option" where
  "findReactor newReactions oldReactions newReactors oldReactors =
     foldl (findReactorStep newReactions oldReactions newReactors oldReactors) (Some '''')
       newReactions"

text \<open>
  The block of \<open>updatePosts\<close> for a path that \<open>allPostMapping\<close> knows; the source has it
  twice, word for word, in the branch for updates from outside and in the branch for
  updates from inside. The result says whether the function returned from inside the
  block (\<open>True\<close>: the update is discarded).
\<close>

definition updateKnown ::
    "ViewPost \<Rightarrow> string \<Rightarrow> nat \<Rightarrow> PostView \<Rightarrow> (bool \<times> PostView) outcome" where
  "updateKnown post currentUser replace st =
     (let reactions' = getReactions (reactions (doc post));
          reactor = findReactor reactions' (getReactions (reactors (heap st replace)))
                      (reactions (doc post)) (reactors (heap st replace))
      in if Some currentUser = reactor \<or> reactor = Some ''same'' then Inr (True, st)
         else (case newPostItem (createdAt (meta post)) (path post) reactions'
                      (reactions (doc post)) (childrenItems (heap st replace))
                      (parent (doc post)) st of
                 (newPost, st1) \<Rightarrow>
                   (let st2 = mapSet False (path post) newPost st1
                    in case parentPath post of
                         Some q \<Rightarrow>
                           (case map_of (allPostMapping st2) q of
                              Some parentPost \<Rightarrow>
                                (case replaceReply parentPost newPost replace st2 of
                                   Inl e \<Rightarrow> Inl e
                                 | Inr st3 \<Rightarrow> Inr (False, st3))
                            | None \<Rightarrow> Inr (False, st2))
                       | None \<Rightarrow>
                           (case replaceChild PostArea newPost replace st2 of
                              Inl e \<Rightarrow> Inl e
                            | Inr st3 \<Rightarrow> Inr (False, st3)))))"

text \<open>
  The block for a path that \<open>allPostMapping\<close> does not know, up to the point where a
  top-level post is put on the page: the new item is entered in \<open>allPostMapping\<close> before
  the parent is looked up, and a reply whose parent is not in \<open>allPostMapping\<close> is
  attached nowhere.
\<close>

definition insertUnknown :: "ViewPost \<Rightarrow> PostView \<Rightarrow> (nat \<times> PostView) outcome" where
  "insertUnknown post st =
     (case newPostItem (createdAt (meta post)) (path post)
             (getReactions (reactions (doc post))) (reactions (doc post)) []
             (parent (doc post)) st of
        (newPost, st1) \<Rightarrow>
          (let st2 = mapSet False (path post) newPost st1
           in case parentPath post of
                Some q \<Rightarrow>
                  (case map_of (allPostMapping st2) q of
                     Some parentPost \<Rightarrow>
                       (case addReply parentPost newPost st2 of
                          Inl e \<Rightarrow> Inl e
                        | Inr st3 \<Rightarrow> Inr (newPost, st3))
                   | None \<Rightarrow> Inr (newPost, st2))
              | None \<Rightarrow> Inr (newPost, st2)))"

text \<open>
  The placement of a new top-level post in the branch for updates from inside. The
  callback given to \<open>findIndex\<close> has a block body without \<open>return\<close>, so it yields
  \<open>undefined\<close> for every element and \<open>findIndex\<close> yields -1.
\<close>

definition findIndexNoReturn :: "'a list \<Rightarrow> int" where
  "findIndexNoReturn xs = - 1"

definition placeFromInside :: "nat \<Rightarrow> PostView \<Rightarrow> PostView outcome" where
  "placeFromInside newPost st =
     (let temp3 = sort_key (\<lambda>i. postTime (heap st i)) (postArea st @ [newPost]);
          index = findIndexNoReturn temp3;
          follows = (if index = - 1 then None else arrayAt temp3 (index + 1))
      in insertBefore PostArea newPost follows st)"

definition lastCharOf :: "string \<Rightarrow> string" where
  "lastCharOf s = (if s = [] then [] else [last s])"

definition updatePosts :: "ViewPost \<Rightarrow> string \<Rightarrow> string \<Rightarrow> PostView \<Rightarrow> PostView outcome" where
  "updatePosts post id' currentUser st =
     (if parseInt id' \<noteq> None then
        (case map_of (allPostMapping st) (path post) of
           Some replace \<Rightarrow>
             (case updateKnown post currentUser replace st of
                Inl e \<Rightarrow> Inl e
              | Inr (_, st1) \<Rightarrow> Inr st1)
         | None \<Rightarrow>
             (case insertUnknown post st of
                Inl e \<Rightarrow> Inl e
              | Inr (newPost, st1) \<Rightarrow>
                  if parentPath post \<noteq> None then Inr st1
                  else Inr (appendChild PostArea newPost st1)))
      else if parseInt (lastCharOf id') = None then
        (case map_of (allPostMapping st) (path post) of
           Some replace \<Rightarrow>
             (case updateKnown post currentUser replace st of
                Inl e \<Rightarrow> Inl e
              | Inr (returned, st1) \<Rightarrow>
                  if returned then Inr st1 else Inr (st1\<lparr> lastEventID := id' \<rparr>))
         | None \<Rightarrow>
             (case insertUnknown post st of
                Inl e \<Rightarrow> Inl e
              | Inr (newPost, st1) \<Rightarrow>
                  if parentPath post \<noteq> None then Inr (st1\<lparr> lastEventID := id' \<rparr>)
                  else (case placeFromInside newPost st1 of
                          Inl e \<Rightarrow> Inl e
                        | Inr st2 \<Rightarrow> Inr (st2\<lparr> lastEventID := id' \<rparr>))))
      else Inr st)"

text \<open>
  Two reaction values with the same members: for each of the four kinds the arrays
  (an absent array has no members) hold the same user names, each once, as the schema's
  \<open>uniqueItems\<close> demands.
\<close>

definition members :: "string list option \<Rightarrow> string list" where
  "members a = (case a of Some xs \<Rightarrow> xs | None \<Rightarrow> [])"

definition sameMembers :: "string list option \<Rightarrow> string list option \<Rightarrow> bool" where
  "sameMembers a b \<longleftrightarrow>
     set (members a) = set (members b) \<and> distinct (members a) \<and> distinct (members b)"

definition kindsOf :: "Reactions option \<Rightarrow> string list option list" where
  "kindsOf r =
     (case r of
        Some rs \<Rightarrow> [smiles rs, likes rs, frowns rs, celebrates rs]
      | None \<Rightarrow> [None, None, None, None])"

definition sameReactions :: "Reactions option \<Rightarrow> Reactions option \<Rightarrow> bool" where
  "sameReactions a b \<longleftrightarrow> list_all2 sameMembers (kindsOf a) (kindsOf b)"

section \<open>Local reactions and pins (PostView.updateReactions, PostView.togglePin)\<close>

text \<open>
  \<open>PostView.updateReactions\<close>: the item is looked up in \<open>allPostMapping\<close> and, when it is
  not there, in \<open>pinnedPostMapping\<close>. The count is read from the text of the count
  paragraph (the empty text is 0), moved by one and written back (0 is the empty text):
  \<open>countAfter\<close> is the new text.
\<close>

definition lookupPost :: "string \<Rightarrow> PostView \<Rightarrow> nat option" where
  "lookupPost postPath' st =
     (case map_of (allPostMapping st) postPath' of
        Some r \<Rightarrow> Some r
      | None \<Rightarrow> map_of (pinnedPostMapping st) postPath')"

definition countAfter :: "bool \<Rightarrow> string \<Rightarrow> string" where
  "countAfter reacted tx =
     (let currCount = (if tx \<noteq> '''' then parseInt tx else Some 0);
          currCount1 = (if reacted then map_option (\<lambda>n. n - 1) currCount
                        else map_option (\<lambda>n. n + 1) currCount)
      in if currCount1 \<noteq> Some 0 then toString currCount1 else '''')"

definition updateReactions :: "string \<Rightarrow> string \<Rightarrow> bool \<Rightarrow> PostView \<Rightarrow> PostView outcome" where
  "updateReactions postPath' reaction reacted st =
     (case lookupPost postPath' st of
        None \<Rightarrow> Inl (Error ''The post with the specified path is undefined'', st)
      | Some postElem \<Rightarrow>
          (case getElementById (heap st postElem) (reaction @ ''-'' @ postPath') of
             Some (Button cl d) \<Rightarrow>
               (case getElementById (heap st postElem) (reaction @ ''-count-'' @ postPath') of
                  Some (Paragraph tx) \<Rightarrow>
                    (let cl1 = (if reacted then classList_remove ''reacted'' cl
                                else classList_add ''reacted'' cl)
                     in Inr (updateItem postElem
                               (\<lambda>item. enablePostButton reaction
                                  (setElement (reaction @ ''-count-'' @ postPath')
                                     (Paragraph (countAfter reacted tx))
                                     (setElement (reaction @ ''-'' @ postPath') (Button cl1 d) item)))
                               st))
                | _ \<Rightarrow> Inl (Error ''didn't find reaction text'', st))
           | _ \<Rightarrow> Inl (Error ''No reaction element exists for this post'', st)))"

text \<open>
  What a reader of the page and of the store sees of a post: the text of the count
  paragraph of a reaction, the class list of its button, and the reaction sets the item
  holds (\<open>getReactors\<close>).
\<close>

definition displayedCount :: "string \<Rightarrow> string \<Rightarrow> PostView \<Rightarrow> string option" where
  "displayedCount postPath' reaction st =
     (case lookupPost postPath' st of
        None \<Rightarrow> None
      | Some r \<Rightarrow>
          (case getElementById (heap st r) (reaction @ ''-count-'' @ postPath') of
             Some (Paragraph txt) \<Rightarrow> Some txt
           | _ \<Rightarrow> None))"

definition buttonClasses :: "string \<Rightarrow> string \<Rightarrow> PostView \<Rightarrow> string list option" where
  "buttonClasses postPath' reaction st =
     (case lookupPost postPath' st of
        None \<Rightarrow> None
      | Some r \<Rightarrow>
          (case getElementById (heap st r) (reaction @ ''-'' @ postPath') of
             Some (Button cl d) \<Rightarrow> Some cl
           | _ \<Rightarrow> None))"

definition storedReactors :: "string \<Rightarrow> PostView \<Rightarrow> Reactions option option" where
  "storedReactors postPath' st = map_option (\<lambda>r. reactors (heap st r)) (lookupPost postPath' st)"

text \<open>
  The count texts the code writes: the constructor and \<open>updateReactions\<close> write the
  decimal text of a count that is not 0 and leave or make the paragraph empty for 0.
\<close>

definition canonicalCount :: "string \<Rightarrow> bool" where
  "canonicalCount t \<longleftrightarrow>
     t = '''' \<or> (case parseInt t of Some n \<Rightarrow> n \<noteq> 0 \<and> toString (Some n) = t | None \<Rightarrow> False)"

text \<open>\<open>PostView.getFirstUnpinned\<close>: the item with the least post time in \<open>allPostMapping\<close>.\<close>

definition getFirstUnpinned :: "PostView \<Rightarrow> nat option" where
  "getFirstUnpinned st =
     arrayAt (sort_key (\<lambda>i. postTime (heap st i)) (map snd (allPostMapping st))) 0"

text \<open>
  \<open>PostView.togglePin\<close>. With \<open>pinned\<close> the item moves from \<open>pinnedPostMapping\<close> to
  \<open>allPostMapping\<close>, without it the other way; the loop over \<open>postElem.getChildren()\<close>
  moves the items of \<open>childrenItems\<close>, one level.
\<close>

definition moveChildren :: "bool \<Rightarrow> nat \<Rightarrow> PostView \<Rightarrow> PostView" where
  "moveChildren pinned postElem st =
     fold (\<lambda>child s. mapSet (\<not> pinned) (postPath (heap s child)) child
                        (mapDelete pinned (postPath (heap s child)) s))
       (childrenItems (heap st postElem)) st"

definition togglePin :: "string \<Rightarrow> bool \<Rightarrow> PostView \<Rightarrow> PostView outcome" where
  "togglePin postPath' pinned st =
     (case map_of (if pinned then pinnedPostMapping st else allPostMapping st) postPath' of
        None \<Rightarrow> Inl (Error ''The post with the specified path is undefined'', st)
      | Some postElem \<Rightarrow>
          (case getElementById (heap st postElem) (''pin-'' @ postPath') of
             Some (Button cl d) \<Rightarrow>
               (let cl1 = (if pinned then classList_remove ''pinned'' cl
                           else classList_add ''pinned'' cl);
                    st1 = updateItem postElem
                            (\<lambda>item. enablePostButton ''pin''
                               (setElement (''pin-'' @ postPath') (Button cl1 d) item)) st;
                    p = postPath (heap st1 postElem)
                in if pinned then
                     (let st2 = moveChildren True postElem (mapDelete True p (mapSet False p postElem st1));
                          temp3 = sort_key (\<lambda>i. postTime (heap st2 i)) (map snd (allPostMapping st2));
                          index = lastIndexWhere
                                    (\<lambda>val. postTime (heap st2 val) = postTime (heap st2 postElem)) temp3;
                          follows = (if index = - 1 then None else arrayAt temp3 (index + 1))
                      in insertBefore PostArea postElem
                           (case follows of
                              None \<Rightarrow> None
                            | Some f \<Rightarrow> if contains PostArea f st2 then Some f else None)
                           st2)
                   else
                     (let st2 = moveChildren False postElem (mapSet True p postElem (mapDelete False p st1))
                      in insertBefore PostArea postElem (getFirstUnpinned st2) st2))
           | _ \<Rightarrow> Inl (Error ''No pin button exists for this post'', st)))"

section \<open>The listener for stream updates (src/main.ts, updatePostEvent)\<close>

text \<open>
  \<open>Model.subscribe\<close> gives an update the id \<open>msg.id + result.meta.lastModifiedBy\<close>. The
  listener ignores an update whose id ends with the name of the logged-in user;
  otherwise it cuts the name of the modifier off the id and calls \<open>updatePosts\<close>. It
  catches what \<open>updatePosts\<close> throws and shows it in the error dialog, which is not part
  of the view's state: the state after the listener is the state at the throw.
\<close>

definition eventId :: "string \<Rightarrow> ViewPost \<Rightarrow> string" where
  "eventId msgId result = msgId @ lastModifiedBy (meta result)"

definition updatePostEvent :: "string \<Rightarrow> string \<Rightarrow> ViewPost \<Rightarrow> PostView \<Rightarrow> PostView" where
  "updatePostEvent username id' post st =
     (if endsWith id' username then st
      else (let newID = substring0 id' (int (length id') - int (length (lastModifiedBy (meta post))))
            in case updatePosts post newID username st of
                 Inl (e, st1) \<Rightarrow> st1
               | Inr st1 \<Rightarrow> st1))"

section \<open>Stream messages (src/model/model.ts, Model.subscribe, onmessage)\<close>

text \<open>
  The value \<open>JSON.parse\<close> returns. A number is a rational (every JavaScript number
  that JSON can denote is one); an object lists each of its keys once.
\<close>

datatype json =
    JNull
  | JBool bool
  | JNumber rat
  | JString string
  | JArray "json list"
  | JObject "(string \<times> json) list"



subsection \<open>The schemas, as Ajv validates them\<close>














subsection \<open>Reading a validated update\<close>








subsection \<open>The handler\<close>

text \<open>
  \<open>onmessage\<close> of \<open>Model.subscribe\<close>. \<open>JSON.parse\<close> is the parameter \<open>parse\<close>: it yields
  the parsed value, or \<open>None\<close> where \<open>JSON.parse\<close> throws a \<open>SyntaxError\<close>.
  \<open>window.dispatchEvent\<close> runs the \<open>updatePostEvent\<close> listener of main.ts before it
  returns, so dispatching is the listener's effect on the view; \<open>username\<close> is the name
  the listener gets from \<open>authModel.getUsername()\<close>.
\<close>

record EventSourceMessage =
  msgId :: string
  msgEvent :: string
  msgData :: string


section \<open>Notions used in the theorems about displayAllPosts\<close>

text \<open>
  \<open>areaAllocated\<close>: every item on the page has been allocated. \<open>keepsItems st st'\<close>: the
  store of \<open>st'\<close> extends that of \<open>st\<close> and the items of \<open>st\<close> have kept their path and
  post time. \<open>pinnedOf\<close> and \<open>generalOf\<close> are the two sorted lists \<open>displayAllPosts\<close>
  builds its trees from.
\<close>

definition areaAllocated :: "PostView \<Rightarrow> bool" where
  "areaAllocated st \<longleftrightarrow> list_all (\<lambda>r. r < nextRef st) (postArea st)"

definition keepsItems :: "PostView \<Rightarrow> PostView \<Rightarrow> bool" where
  "keepsItems st st' \<longleftrightarrow>
     nextRef st \<le> nextRef st' \<and>
     (\<forall>j < nextRef st. postPath (heap st' j) = postPath (heap st j) \<and>
                        postTime (heap st' j) = postTime (heap st j))"

definition pinnedOf :: "string \<Rightarrow> ViewPost list \<Rightarrow> ViewPost list" where
  "pinnedOf currUser posts =
     sort_key (\<lambda>p. lastModifiedAt (meta p)) (fst (getPinnedPosts currUser posts ([], [])))"

definition generalOf :: "string \<Rightarrow> ViewPost list \<Rightarrow> ViewPost list" where
  "generalOf currUser posts =
     sort_key (\<lambda>p. createdAt (meta p)) (snd (getPinnedPosts currUser posts ([], [])))"

definition rootOf :: "ViewPost \<Rightarrow> string \<times> int" where
  "rootOf n = (path n, createdAt (meta n))"

text \<open>
  The state an operation leaves behind, whether it returned or threw; and the key sets of
  the two maps.
\<close>

definition stateAfter :: "PostView outcome \<Rightarrow> PostView" where
  "stateAfter r = (case r of Inl (e, st) \<Rightarrow> st | Inr st \<Rightarrow> st)"

definition generalKeys :: "PostView \<Rightarrow> string set" where
  "generalKeys st = fst ` set (allPostMapping st)"

definition pinnedKeys :: "PostView \<Rightarrow> string set" where
  "pinnedKeys st = fst ` set (pinnedPostMapping st)"

definition childPaths :: "PostView \<Rightarrow> nat \<Rightarrow> string set" where
  "childPaths st r = (\<lambda>c. postPath (heap st c)) ` set (childrenItems (heap st r))"

section \<open>Snapshots and sessions used in the theorems\<close>

text \<open>
  \<open>plainPost p t parent pins\<close> is a post document with path \<open>p\<close>, created and last
  modified at \<open>t\<close> by bob, with no reactions. \<open>andThen\<close> runs the next operation on the
  state an operation returns, and stops at a throw.
\<close>

definition plainPost :: "string \<Rightarrow> int \<Rightarrow> string option \<Rightarrow> string list option \<Rightarrow> ViewPost" where
  "plainPost p t par pn =
     \<lparr> path = p,
       doc = \<lparr> msg = ''hello'', parent = par, reactions = None, pins = pn \<rparr>,
       meta = \<lparr> createdBy = ''bob'', createdAt = t, lastModifiedBy = ''bob'',
                lastModifiedAt = t \<rparr> \<rparr>"

definition andThen :: "PostView outcome \<Rightarrow> (PostView \<Rightarrow> PostView outcome) \<Rightarrow> PostView outcome" where
  "andThen r f = (case r of Inl e \<Rightarrow> Inl e | Inr st \<Rightarrow> f st)"

definition generalPaths :: "PostView \<Rightarrow> string list" where
  "generalPaths st = map fst (allPostMapping st)"

definition pinnedPaths :: "PostView \<Rightarrow> string list" where
  "pinnedPaths st = map fst (pinnedPostMapping st)"

text \<open>The paths and the post times of the items on the page, top level, in page order.\<close>

definition rootSequence :: "PostView \<Rightarrow> (string \<times> int) list" where
  "rootSequence st = map (\<lambda>r. (postPath (heap st r), postTime (heap st r))) (postArea st)"

text \<open>
  A top-level post with two likes, last modified by carol; and a view whose two maps
  both have an entry for one path.
\<close>

definition likedPost :: ViewPost where
  "likedPost =
     \<lparr> path = ''/A'',
       doc = \<lparr> msg = ''hello'', parent = None,
               reactions = Some \<lparr> smiles = Some [], likes = Some [''bob'', ''carol''],
                                  frowns = None, celebrates = Some [] \<rparr>,
               pins = None \<rparr>,
       meta = \<lparr> createdBy = ''bob'', createdAt = 100, lastModifiedBy = ''carol'',
                lastModifiedAt = 130 \<rparr> \<rparr>"

definition twoEntries :: PostView where
  "twoEntries = initPostView\<lparr> nextRef := 2, allPostMapping := [(''/A'', 1)],
                             pinnedPostMapping := [(''/A'', 0), (''/B'', 0)] \<rparr>"







section \<open>Theorems: numbers and their decimal text\<close>

lemma endsWith_append: "endsWith (m @ u) u"
  by (simp add: endsWith_def)

lemma of_char_digit: "d < 10 \<Longrightarrow> (of_char (char_of (48 + d :: nat)) :: nat) = 48 + d"
  by (simp add: of_char_of)

lemma isDigitChar_digit: "d < 10 \<Longrightarrow> isDigitChar (char_of (48 + d :: nat))"
  by (simp add: isDigitChar_def of_char_digit)

lemma digitValue_digit: "d < 10 \<Longrightarrow> digitValue (char_of (48 + d :: nat)) = Some d"
  by (simp add: digitValue_def of_char_digit Let_def)

lemma digitsOf_digits: "c \<in> set (digitsOf n) \<Longrightarrow> isDigitChar c"
proof (induction n arbitrary: c rule: digitsOf.induct)
  case (1 n)
  show ?case
  proof (cases "n < 10")
    case True
    with "1.prems" show ?thesis
      by (simp add: digitsOf.simps [of n] isDigitChar_digit)
  next
    case False
    with "1.prems" "1.IH" show ?thesis
      by (auto simp: digitsOf.simps [of n] isDigitChar_digit)
  qed
qed

lemma digitsOf_nonempty: "digitsOf n \<noteq> []"
  by (subst digitsOf.simps) simp

lemma isDigitChar_props:
  assumes "isDigitChar c"
  shows "\<not> isWhiteSpace c" "c \<noteq> CHR ''-''" "c \<noteq> CHR ''+''" "c \<noteq> CHR ''x''"
    "c \<noteq> CHR ''X''" "isRadixDigit 10 c"
  using assms
  by (auto simp: isDigitChar_def isWhiteSpace_def isRadixDigit_def digitValue_def Let_def)

lemma mathInt_snoc:
  "mathInt R (z @ [c]) =
     mathInt R z * int R + int (case digitValue c of Some d \<Rightarrow> d | None \<Rightarrow> 0)"
  by (simp add: mathInt_def)

lemma mathInt_digitsOf: "mathInt 10 (digitsOf n) = int n"
proof (induction n rule: digitsOf.induct)
  case (1 n)
  show ?case
  proof (cases "n < 10")
    case True
    then show ?thesis
      by (simp add: digitsOf.simps [of n] mathInt_def digitValue_digit)
  next
    case False
    with "1.IH" have "mathInt 10 (digitsOf n) = int (n div 10) * 10 + int (n mod 10)"
      by (simp add: digitsOf.simps [of n] mathInt_snoc digitValue_digit)
    also have "\<dots> = int n"
      by (simp add: of_nat_div of_nat_mod)
    finally show ?thesis .
  qed
qed

lemma parseInt_decimal:
  assumes ne: "z \<noteq> []" and all: "\<forall>x \<in> set z. isDigitChar x"
  shows "parseInt z = Some (mathInt 10 z)"
    and "parseInt (CHR ''-'' # z) = Some (- mathInt 10 z)"
proof -
  obtain c r where cr: "z = c # r"
    using ne by (cases z) auto
  have c: "isDigitChar c"
    using all cr by simp
  have s1: "dropWhile isWhiteSpace z = z"
    using isDigitChar_props(1) [OF c] cr by simp
  have sgn: "(case z of c # _ \<Rightarrow> if c = CHR ''-'' then - 1 else 1 | [] \<Rightarrow> (1::int)) = 1"
    using isDigitChar_props(2) [OF c] cr by simp
  have s2: "(case z of c # r \<Rightarrow> if c = CHR ''-'' \<or> c = CHR ''+'' then r else z | [] \<Rightarrow> z) = z"
    using isDigitChar_props(2,3) [OF c] cr by simp
  have hex: "(take 2 z = ''0x'' \<or> take 2 z = ''0X'') = False"
  proof (cases r)
    case Nil
    then show ?thesis using cr by simp
  next
    case (Cons d r')
    with all cr have "isDigitChar d" by simp
    then show ?thesis using Cons cr isDigitChar_props(4,5) [of d] by auto
  qed
  have tw: "takeWhile (isRadixDigit 10) z = z"
    using all isDigitChar_props(6) by (intro takeWhile_eq_all_conv [THEN iffD2]) blast
  show "parseInt z = Some (mathInt 10 z)"
    unfolding parseInt_def Let_def s1 sgn s2
    by (simp only: hex if_False tw) (simp add: ne)
  have s1': "dropWhile isWhiteSpace (CHR ''-'' # z) = CHR ''-'' # z"
    by (simp add: isWhiteSpace_def)
  show "parseInt (CHR ''-'' # z) = Some (- mathInt 10 z)"
    unfolding parseInt_def Let_def s1' list.case
    by (simp only: hex if_False if_True simp_thms tw) (simp add: ne)
qed

lemma parseInt_digitsOf: "parseInt (digitsOf n) = Some (int n)"
  using parseInt_decimal(1) [of "digitsOf n"] digitsOf_nonempty digitsOf_digits mathInt_digitsOf
  by simp

lemma parseInt_neg_digitsOf: "parseInt (CHR ''-'' # digitsOf n) = Some (- int n)"
  using parseInt_decimal(2) [of "digitsOf n"] digitsOf_nonempty digitsOf_digits mathInt_digitsOf
  by simp

lemma parseInt_toString: "parseInt (toString (Some i)) = Some i"
  by (simp add: toString_def parseInt_digitsOf parseInt_neg_digitsOf)

lemma toString_nonempty: "toString x \<noteq> ''''"
  by (auto simp: toString_def digitsOf_nonempty split: option.splits)

section \<open>Theorems: elements and fields of post items\<close>

lemma map_of_setElement_list:
  "map_of (map (\<lambda>(j, x). if j = i then (j, e) else (j, x)) xs) k =
     (if k = i \<and> map_of xs i \<noteq> None then Some e else map_of xs k)"
  by (induction xs) auto

lemma getElementById_setElement:
  "getElementById (setElement i e item) k =
     (if k = i \<and> getElementById item i \<noteq> None then Some e else getElementById item k)"
  by (simp add: getElementById_def setElement_def map_of_setElement_list)

lemma setElement_fields [simp]:
  "reactors (setElement i e item) = reactors item"
  "postPath (setElement i e item) = postPath item"
  by (simp_all add: setElement_def)

lemma enablePostButton_cases:
  "enablePostButton k item = item \<or>
   (\<exists>cl d. getElementById item (k @ ''-'' @ postPath item) = Some (Button cl d) \<and>
      enablePostButton k item = setElement (k @ ''-'' @ postPath item) (Button cl False) item)"
proof (cases "k \<in> set [''smile'', ''like'', ''frown'', ''celebrate'', ''pin'']")
  case False
  then show ?thesis
    unfolding enablePostButton_def by (simp only: if_False simp_thms)
next
  case True
  show ?thesis
  proof (cases "getElementById item (k @ ''-'' @ postPath item)")
    case None
    then show ?thesis
      unfolding enablePostButton_def by (simp only: if_True True option.case simp_thms)
  next
    case (Some e)
    then show ?thesis
      unfolding enablePostButton_def
      by (cases e) (simp_all only: if_True True option.case Element.case simp_thms, blast)
  qed
qed

lemma enablePostButton_fields [simp]:
  "reactors (enablePostButton k item) = reactors item"
  "postPath (enablePostButton k item) = postPath item"
  using enablePostButton_cases [of k item] by (auto simp del: set_simps)

lemma getElementById_enable_Paragraph:
  assumes "getElementById item j = Some (Paragraph t)"
  shows "getElementById (enablePostButton k item) j = Some (Paragraph t)"
  using enablePostButton_cases [of k item] assms
  by (auto simp: getElementById_setElement)

lemma getElementById_enable_Button:
  assumes "getElementById item j = Some (Button cl d)"
  shows "\<exists>d'. getElementById (enablePostButton k item) j = Some (Button cl d')"
  using enablePostButton_cases [of k item] assms
  by (auto simp: getElementById_setElement)

lemma lookupPost_updateItem [simp]: "lookupPost p (updateItem r f st) = lookupPost p st"
  by (simp add: lookupPost_def updateItem_def split: option.splits)

lemma heap_updateItem: "heap (updateItem r f st) j = (if j = r then f (heap st r) else heap st j)"
  by (simp add: updateItem_def)

section \<open>Theorems: subscription lifecycle\<close>

lemma controlled_init: "controlled initModel"
  by (simp add: controlled_def initModel_def)

lemma controlled_unsubscribe: "controlled m \<Longrightarrow> controlled (unsubscribe m)"
  by (auto simp: controlled_def unsubscribe_def list_all_iff nth_list_update split: option.splits)

lemma liveStreams_unsubscribe: "controlled m \<Longrightarrow> liveStreams (unsubscribe m) = []"
  by (auto simp: controlled_def unsubscribe_def liveStreams_def list_all_iff filter_empty_conv
      nth_list_update split: option.splits)

lemma controlled_subscribe: "controlled m \<Longrightarrow> liveStreams m = [] \<Longrightarrow> controlled (subscribe m)"
  by (auto simp: controlled_def subscribe_def liveStreams_def list_all_iff filter_empty_conv
      nth_append Let_def split: option.splits)

lemma controlled_live: "controlled m \<Longrightarrow> length (liveStreams m) \<le> 1"
proof -
  assume c: "controlled m"
  have d: "distinct (liveStreams m)"
    using c by (simp add: controlled_def liveStreams_def)
  show ?thesis
  proof (cases "controller m")
    case None
    with c have "liveStreams m = []"
      by (auto simp: controlled_def liveStreams_def list_all_iff filter_empty_conv)
    then show ?thesis by simp
  next
    case (Some k)
    with c have "set (liveStreams m) \<subseteq> {k}"
      by (auto simp: controlled_def liveStreams_def list_all_iff)
    then have "card (set (liveStreams m)) \<le> 1"
      by (metis card_mono finite.emptyI finite.insertI card_1_singleton_iff
          is_singletonI is_singleton_altdef)
    with d show ?thesis by (simp add: distinct_card)
  qed
qed

lemma controlled_runListener: "controlled m \<Longrightarrow> controlled (runListener m l)"
  by (cases l)
     (simp_all add: controlled_unsubscribe controlled_subscribe liveStreams_unsubscribe)

lemma controlled_foldl: "controlled m \<Longrightarrow> controlled (foldl runListener m ls)"
  by (induction ls arbitrary: m) (simp_all add: controlled_runListener)

text \<open>
  C7, as stated, fails: \<open>subscribe\<close> does not cancel the stream started by an earlier
  \<open>subscribe\<close>. Two calls in a row leave two streams delivering events, and the first
  controller is no longer reachable from the field, so no later \<open>unsubscribe\<close> can abort it.
\<close>

theorem C7_subscribe_twice_counterexample:
  "\<not> length (liveStreams (subscribe (subscribe initModel))) \<le> 1"
  by (simp add: subscribe_def initModel_def liveStreams_def Let_def)

text \<open>
  C7, amended: cancelling is the caller's job. Whatever sequence of listeners runs
  from the initial model, where a listener either unsubscribes or unsubscribes and then
  subscribes (as the \<open>displayChannelEvent\<close> listener does), at most one stream is live
  afterwards; and \<open>unsubscribe\<close> on a model whose controller field is null changes nothing.
\<close>

theorem C7_single_stream_when_callers_unsubscribe_first:
  "length (liveStreams (foldl runListener initModel ls)) \<le> 1 \<and>
   unsubscribe (m\<lparr> controller := None \<rparr>) = m\<lparr> controller := None \<rparr>"
  using controlled_live [OF controlled_foldl [OF controlled_init]]
  by (simp add: unsubscribe_def)

theorem C7_single_stream_witness:
  "length (liveStreams (foldl runListener initModel
      [DisplayChannelEvent, DisplayChannelEvent, UnsubscribeOnly, DisplayChannelEvent])) = 1 \<and>
   unsubscribe (initModel\<lparr> controller := None \<rparr>) = initModel\<lparr> controller := None \<rparr>"
  using C7_single_stream_when_callers_unsubscribe_first
    [of "[DisplayChannelEvent, DisplayChannelEvent, UnsubscribeOnly, DisplayChannelEvent]" initModel]
  by (simp add: subscribe_def unsubscribe_def initModel_def liveStreams_def Let_def)

section \<open>Theorems: the index at concrete snapshots\<close>

lemmas view_defs =
  plainPost_def andThen_def generalPaths_def pinnedPaths_def rootSequence_def
  displayAllPosts_def getPinnedPosts_def classify_def initPostView_def
  treeRoots_def treeChildren_def nodeOf_def parentPath_def logMissingParents_def
  parentMissing_def newPostItem_def template_def countText_def getReactions_def
  getReacted_def markReacted_def markOne_def mapSet_def mapDelete_def updateItem_def appendChild_def
  detach_def removeReply_def childNodes_def setChildNodes_def getElementById_def
  setElement_def classList_add_def classList_remove_def Let_def togglePin_def
  moveChildren_def enablePostButton_def insertBefore_def getFirstUnpinned_def arrayAt_def
  lastIndexWhere_def contains_def insertAt_def nextSibling_def updatePosts_def
  updateKnown_def insertUnknown_def placeFromInside_def findIndexNoReturn_def
  lastCharOf_def findReactor_def findReactorStep_def pickReactor_def lastOf_def
  arrayLength_def arrayIncludes_def replaceReply_def replaceChild_def addReply_def
  updatePostEvent_def eventId_def endsWith_def substring0_def parseInt_def
  isWhiteSpace_def isRadixDigit_def digitValue_def mathInt_def updateReactions_def
  lookupPost_def countAfter_def displayedCount_def buttonClasses_def storedReactors_def

text \<open>
  C1 at a snapshot: alice has pinned the top-level post \<open>/A\<close>; its reply \<open>/A/1\<close> carries
  a \<open>pins\<close> array without alice (the array is there once anybody has pinned or unpinned
  the reply). \<open>getPinnedPosts\<close> looks at the parent only when \<open>pins\<close> is not an array, so
  the reply goes to the general posts, where its parent is missing, and
  \<open>displayAllPosts\<close> reports it and skips it: the reply is a descendant of a pinned post
  and ends in neither map.
\<close>

theorem C1_reply_with_pins_array_in_neither_map:
  "\<exists>st. displayAllPosts ''alice''
           [plainPost ''/A'' 100 None (Some [''alice'']),
            plainPost ''/A/1'' 150 (Some ''/A'') (Some [''bob''])] initPostView = Inr st \<and>
        generalPaths st = [] \<and> pinnedPaths st = [''/A''] \<and>
        errorLog st = [''parent post tree not found in map'']"
  by (simp add: view_defs)

text \<open>
  The same snapshot with replies that have no \<open>pins\<close> array: here \<open>getPinnedPosts\<close>
  carries the pin down to the reply and to the reply of the reply.
\<close>

lemma displayAllPosts_cascades_without_pins_array:
  "\<exists>st. displayAllPosts ''alice''
           [plainPost ''/A'' 100 None (Some [''alice'']),
            plainPost ''/A/1'' 150 (Some ''/A'') None,
            plainPost ''/A/2'' 160 (Some ''/A/1'') None] initPostView = Inr st \<and>
        generalPaths st = [] \<and> pinnedPaths st = [''/A/2'', ''/A/1'', ''/A'']"
  by (simp add: view_defs)

text \<open>
  C2 at a snapshot of four general posts: \<open>/D\<close>, and \<open>/A\<close> with the reply \<open>/A/1\<close>, which has
  the reply \<open>/A/2\<close>. Pinning \<open>/A\<close> moves \<open>/A\<close> and \<open>/A/1\<close> to the pinned map; \<open>/A/2\<close>, two
  levels below, stays in the general map.
\<close>

theorem C2_togglePin_leaves_grandchild_general:
  "\<exists>st. andThen
          (displayAllPosts ''alice''
             [plainPost ''/D'' 50 None None,
              plainPost ''/A'' 100 None None,
              plainPost ''/A/1'' 150 (Some ''/A'') None,
              plainPost ''/A/2'' 160 (Some ''/A/1'') None] initPostView)
          (togglePin ''/A'' False) = Inr st \<and>
        generalPaths st = [''/D'', ''/A/2''] \<and> pinnedPaths st = [''/A'', ''/A/1'']"
  by (simp add: view_defs)

text \<open>
  C4 at a snapshot with one post, \<open>/A\<close>, pinned by alice, so that \<open>displayAllPosts\<close>
  enters it in the pinned map. The stream then delivers the same document again, last
  modified by bob, under the message id \<open>17\<close>. \<open>updatePosts\<close> looks the path up in
  \<open>allPostMapping\<close> only, takes the post for a new one, enters a second item in the
  general map and appends it to the page.
\<close>

theorem C4_duplicate_of_pinned_post_is_applied:
  "\<exists>st0. displayAllPosts ''alice'' [plainPost ''/A'' 100 None (Some [''alice''])] initPostView
          = Inr st0 \<and>
         generalPaths st0 = [] \<and> pinnedPaths st0 = [''/A''] \<and>
         rootSequence st0 = [(''/A'', 100)] \<and>
         generalPaths (updatePostEvent ''alice''
                         (eventId ''17'' (plainPost ''/A'' 100 None (Some [''alice''])))
                         (plainPost ''/A'' 100 None (Some [''alice''])) st0) = [''/A''] \<and>
         pinnedPaths (updatePostEvent ''alice''
                         (eventId ''17'' (plainPost ''/A'' 100 None (Some [''alice''])))
                         (plainPost ''/A'' 100 None (Some [''alice''])) st0) = [''/A''] \<and>
         rootSequence (updatePostEvent ''alice''
                         (eventId ''17'' (plainPost ''/A'' 100 None (Some [''alice''])))
                         (plainPost ''/A'' 100 None (Some [''alice''])) st0)
           = [(''/A'', 100), (''/A'', 100)]"
  by (simp add: view_defs)

text \<open>
  C5 in a session: the snapshot has the top-level posts \<open>/A\<close> (created at 100), \<open>/P\<close> (120)
  and \<open>/B\<close> (200) and the reply \<open>/A/1\<close> (150) to \<open>/A\<close>; alice pins \<open>/P\<close> and unpins it
  again. On unpinning, the item that follows \<open>/P\<close> among all general items sorted by
  post time is the reply \<open>/A/1\<close>, which the post area does not contain, and \<open>/P\<close> is
  appended at the end: the top level of the general partition reads 100, 200, 120.
\<close>

theorem C5_unpin_breaks_createdAt_order:
  "\<exists>st. andThen
          (andThen
             (displayAllPosts ''alice''
                [plainPost ''/A'' 100 None None,
                 plainPost ''/P'' 120 None None,
                 plainPost ''/A/1'' 150 (Some ''/A'') None,
                 plainPost ''/B'' 200 None None] initPostView)
             (togglePin ''/P'' False))
          (togglePin ''/P'' True) = Inr st \<and>
        pinnedPaths st = [] \<and>
        rootSequence st = [(''/A'', 100), (''/B'', 200), (''/P'', 120)]"
  by (simp add: view_defs)

text \<open>
  The same law after \<open>updatePosts\<close>: a new top-level post is put at the end of the page
  whatever its creation time, in the branch for updates from outside (\<open>append\<close>) and in
  the branch for updates from inside (\<open>findIndex\<close> yields -1).
\<close>

lemma updatePosts_appends_older_post:
  "\<exists>st0 st1 st2.
      displayAllPosts ''alice'' [plainPost ''/X'' 200 None None] initPostView = Inr st0 \<and>
      updatePosts (plainPost ''/Y'' 100 None None) ''17'' ''alice'' st0 = Inr st1 \<and>
      rootSequence st1 = [(''/X'', 200), (''/Y'', 100)] \<and>
      updatePosts (plainPost ''/Y'' 100 None None) ''aBc'' ''alice'' st0 = Inr st2 \<and>
      rootSequence st2 = [(''/X'', 200), (''/Y'', 100)]"
  by (simp add: view_defs)

text \<open>
  C6 on the empty view: the stream delivers the reply \<open>/A/1\<close> whose parent \<open>/A\<close> is not in
  the index. \<open>updatePosts\<close> enters the reply in \<open>allPostMapping\<close> before it looks for the
  parent, attaches it nowhere and logs nothing.
\<close>

theorem C6_orphan_reply_is_entered_in_the_map:
  "generalPaths (updatePostEvent ''alice''
                   (eventId ''17'' (plainPost ''/A/1'' 150 (Some ''/A'') None))
                   (plainPost ''/A/1'' 150 (Some ''/A'') None) initPostView) = [''/A/1''] \<and>
   rootSequence (updatePostEvent ''alice''
                   (eventId ''17'' (plainPost ''/A/1'' 150 (Some ''/A'') None))
                   (plainPost ''/A/1'' 150 (Some ''/A'') None) initPostView) = [] \<and>
   errorLog (updatePostEvent ''alice''
                   (eventId ''17'' (plainPost ''/A/1'' 150 (Some ''/A'') None))
                   (plainPost ''/A/1'' 150 (Some ''/A'') None) initPostView) = [] \<and>
   generalPaths initPostView = []"
  by (simp add: view_defs)

text \<open>
  The snapshot path treats the same reply differently: \<open>displayAllPosts\<close> reports the
  missing parent and leaves the reply out of both maps.
\<close>

lemma displayAllPosts_skips_orphan_reply:
  "\<exists>st. displayAllPosts ''alice'' [plainPost ''/A/1'' 150 (Some ''/A'') None] initPostView
          = Inr st \<and>
        generalPaths st = [] \<and> pinnedPaths st = [] \<and>
        errorLog st = [''parent post tree not found in map'']"
  by (simp add: view_defs)

section \<open>Theorems: the page after displayAllPosts\<close>

text \<open>
  Building the items of a tree allocates new items and leaves the page and the paths
  and post times of the older items alone; \<open>displayRoots\<close> appends one item per root.
\<close>

lemma keepsItems_refl: "keepsItems st st"
  by (simp add: keepsItems_def)

lemma keepsItems_trans: "keepsItems a b \<Longrightarrow> keepsItems b c \<Longrightarrow> keepsItems a c"
  by (auto simp: keepsItems_def)

lemma removeReply_fields [simp]:
  "postPath (removeReply r item) = postPath item"
  "postTime (removeReply r item) = postTime item"
  by (simp_all add: removeReply_def)

lemma detach_fields [simp]:
  "nextRef (detach r st) = nextRef st"
  "postArea (detach r st) = removeAll r (postArea st)"
  "postPath (heap (detach r st) j) = postPath (heap st j)"
  "postTime (heap (detach r st) j) = postTime (heap st j)"
  by (simp_all add: detach_def)

lemma appendReply_fields [simp]:
  "nextRef (appendChild (RepliesOf p) c st) = nextRef st"
  "postArea (appendChild (RepliesOf p) c st) = removeAll c (postArea st)"
  "postPath (heap (appendChild (RepliesOf p) c st) j) = postPath (heap st j)"
  "postTime (heap (appendChild (RepliesOf p) c st) j) = postTime (heap st j)"
  by (simp_all add: appendChild_def setChildNodes_def childNodes_def updateItem_def Let_def)

lemma fold_appendReply_fields:
  "nextRef (fold (appendChild (RepliesOf p)) cs st) = nextRef st"
  "postArea (fold (appendChild (RepliesOf p)) cs st) = filter (\<lambda>x. x \<notin> set cs) (postArea st)"
  "postPath (heap (fold (appendChild (RepliesOf p)) cs st) j) = postPath (heap st j)"
  "postTime (heap (fold (appendChild (RepliesOf p)) cs st) j) = postTime (heap st j)"
proof (induction cs arbitrary: st)
  case Nil
  { case 1 show ?case by simp }
  { case 2 show ?case by simp }
  { case 3 show ?case by simp }
  { case 4 show ?case by simp }
next
  case (Cons c cs)
  { case 1 show ?case by (simp add: Cons.IH) }
  { case 2 show ?case by (simp add: Cons.IH removeAll_filter_not_eq filter_filter conj_commute cong: filter_cong) (metis) }
  { case 3 show ?case by (simp add: Cons.IH) }
  { case 4 show ?case by (simp add: Cons.IH) }
qed

lemma newPostItem_fields:
  assumes "newPostItem t p rn rs children pp st = (r, st')"
  shows "r = nextRef st" "nextRef st' = Suc (nextRef st)"
    "postArea st' = filter (\<lambda>x. x \<notin> set children) (postArea st)"
    "postPath (heap st' r) = p" "postTime (heap st' r) = t"
    "j \<noteq> r \<Longrightarrow> postPath (heap st' j) = postPath (heap st j)"
    "j \<noteq> r \<Longrightarrow> postTime (heap st' j) = postTime (heap st j)"
  using assms
  by (auto simp: newPostItem_def Let_def fold_appendReply_fields)

lemma setElement_postTime [simp]: "postTime (setElement i e item) = postTime item"
  by (simp add: setElement_def)

lemma markOne_fields [simp]:
  "postPath (markOne kr item) = postPath item"
  "postTime (markOne kr item) = postTime item"
  by (cases kr; simp add: markOne_def split: option.splits Element.splits)+

lemma fold_markOne_fields:
  "postPath (fold markOne xs item) = postPath item"
  "postTime (fold markOne xs item) = postTime item"
  by (induction xs arbitrary: item) simp_all

lemma markReacted_fields [simp]:
  "postPath (markReacted flags item) = postPath item"
  "postTime (markReacted flags item) = postTime item"
  by (simp_all add: markReacted_def fold_markOne_fields)

lemma mapSet_fields [simp]:
  "nextRef (mapSet pm k r st) = nextRef st"
  "postArea (mapSet pm k r st) = postArea st"
  "heap (mapSet pm k r st) = heap st"
  by (simp_all add: mapSet_def)

lemma updateItem_fields [simp]:
  "nextRef (updateItem r f st) = nextRef st"
  "postArea (updateItem r f st) = postArea st"
  by (simp_all add: updateItem_def)

lemma filter_fresh:
  assumes "list_all (\<lambda>r. r < (n::nat)) xs" and "\<forall>c \<in> set cs. n \<le> c"
  shows "filter (\<lambda>x. x \<notin> set cs) xs = xs"
proof -
  have "x \<notin> set cs" if "x \<in> set xs" for x
  proof
    assume "x \<in> set cs"
    with assms(2) have "n \<le> x" by simp
    moreover from that assms(1) have "x < n" by (simp add: list_all_iff)
    ultimately show False by simp
  qed
  then show ?thesis by (simp add: filter_id_conv)
qed

lemma makePostFromTree_frame:
  "makePostFromTree k u ps pm n st = Inr (r, st') \<Longrightarrow> areaAllocated st \<Longrightarrow>
     postArea st' = postArea st \<and> keepsItems st st' \<and> nextRef st \<le> r \<and> r < nextRef st' \<and>
     postPath (heap st' r) = path n \<and> postTime (heap st' r) = createdAt (meta n)"
  and makeChildren_frame:
  "makeChildren k u ps pm ns st = Inr (rs, st') \<Longrightarrow> areaAllocated st \<Longrightarrow>
     postArea st' = postArea st \<and> keepsItems st st' \<and>
     (\<forall>c \<in> set rs. nextRef st \<le> c \<and> c < nextRef st')"
proof (induction k u ps pm n st and k u ps pm ns st arbitrary: r st' and rs st'
    rule: makePostFromTree_makeChildren.induct)
  case (1 currUser posts pinnedMap rootNode st)
  then show ?case by simp
next
  case (2 depth currUser posts pinnedMap rootNode st)
  from "2.prems"(1) obtain children st1 where
    c: "makeChildren depth currUser posts pinnedMap (treeChildren posts rootNode) st = Inr (children, st1)"
    by (auto split: sum.splits)
  from "2.IH" [OF c "2.prems"(2)] have ih:
    "postArea st1 = postArea st" "keepsItems st st1"
    "\<forall>c \<in> set children. nextRef st \<le> c \<and> c < nextRef st1"
    by auto
  obtain post st2 where
    n: "newPostItem (createdAt (meta rootNode)) (path rootNode)
          (getReactions (reactions (doc rootNode))) (reactions (doc rootNode))
          children (parent (doc rootNode)) st1 = (post, st2)"
    by (cases "newPostItem (createdAt (meta rootNode)) (path rootNode)
          (getReactions (reactions (doc rootNode))) (reactions (doc rootNode))
          children (parent (doc rootNode)) st1") auto
  from "2.prems"(1) c n have r: "r = post"
    and st': "st' = mapSet pinnedMap (path rootNode) post
                 (updateItem post (markReacted (getReacted (reactions (doc rootNode)) currUser)) st2)"
    by auto
  note f = newPostItem_fields [OF n]
  have area1: "list_all (\<lambda>r. r < nextRef st) (postArea st1)"
    using "2.prems"(2) ih(1) by (simp add: areaAllocated_def)
  have pa: "postArea st2 = postArea st1"
    unfolding f(3) using filter_fresh [OF area1] ih(3) by auto
  have k12: "keepsItems st1 st'"
    unfolding keepsItems_def st' using f
    by (auto simp: updateItem_def)
  have "postPath (heap st' r) = path rootNode" "postTime (heap st' r) = createdAt (meta rootNode)"
    unfolding st' r using f(4,5) by (simp_all add: updateItem_def)
  moreover have "nextRef st \<le> r" "r < nextRef st'"
    using ih(2) f(1,2) unfolding r st' by (simp_all add: keepsItems_def)
  moreover have "postArea st' = postArea st"
    unfolding st' using pa ih(1) by simp
  moreover have "keepsItems st st'"
    using keepsItems_trans [OF ih(2) k12] .
  ultimately show ?case by simp
next
  case (3 depth currUser posts pinnedMap st)
  then show ?case by (simp add: keepsItems_refl)
next
  case (4 depth currUser posts pinnedMap childNode rest st)
  from "4.prems"(1) obtain childPost st1 where
    a: "makePostFromTree depth currUser posts pinnedMap childNode st = Inr (childPost, st1)"
    by (auto split: sum.splits)
  from "4.prems"(1) a obtain children st2 where
    b: "makeChildren depth currUser posts pinnedMap rest st1 = Inr (children, st2)"
    and rs: "rs = childPost # children" and st': "st' = st2"
    by (auto split: sum.splits)
  from "4.IH"(1) [OF a "4.prems"(2)] have ih1:
    "postArea st1 = postArea st" "keepsItems st st1" "nextRef st \<le> childPost" "childPost < nextRef st1"
    by auto
  have area1: "areaAllocated st1"
    using "4.prems"(2) ih1(1,2) by (auto simp: areaAllocated_def keepsItems_def list_all_iff)
  from "4.IH"(2) [OF a _ b area1] have ih2:
    "postArea st2 = postArea st1" "keepsItems st1 st2"
    "\<forall>c \<in> set children. nextRef st1 \<le> c \<and> c < nextRef st2"
    by auto
  have "keepsItems st st'"
    unfolding st' using keepsItems_trans [OF ih1(2) ih2(2)] .
  moreover have "\<forall>c \<in> set rs. nextRef st \<le> c \<and> c < nextRef st'"
    unfolding rs st' using ih1(2,3,4) ih2(2,3) by (auto simp: keepsItems_def)
  ultimately show ?case
    using ih1(1) ih2(1) st' by simp
qed

lemma appendArea_fields [simp]:
  "nextRef (appendChild PostArea r st) = nextRef st"
  "postArea (appendChild PostArea r st) = removeAll r (postArea st) @ [r]"
  "postPath (heap (appendChild PostArea r st) j) = postPath (heap st j)"
  "postTime (heap (appendChild PostArea r st) j) = postTime (heap st j)"
  by (simp_all add: appendChild_def setChildNodes_def childNodes_def Let_def)

lemma rootSequence_keeps:
  assumes "keepsItems st st'" "areaAllocated st"
  shows "map (\<lambda>r. (postPath (heap st' r), postTime (heap st' r))) (postArea st) = rootSequence st"
  using assms
  by (auto simp: keepsItems_def areaAllocated_def rootSequence_def list_all_iff)

lemma removeAll_fresh:
  assumes "list_all (\<lambda>x. x < (n::nat)) xs" "n \<le> r"
  shows "removeAll r xs = xs"
proof -
  have "r \<notin> set xs"
  proof
    assume "r \<in> set xs"
    with assms(1) have "r < n" by (simp add: list_all_iff)
    with assms(2) show False by simp
  qed
  then show ?thesis by simp
qed

lemma displayRoots_sequence:
  "displayRoots k u ps pm ns st = Inr st' \<Longrightarrow> areaAllocated st \<Longrightarrow>
     areaAllocated st' \<and> keepsItems st st' \<and> rootSequence st' = rootSequence st @ map rootOf ns"
proof (induction ns arbitrary: st)
  case Nil
  then show ?case by (simp add: keepsItems_refl)
next
  case (Cons n ns)
  from Cons.prems(1) obtain r st1 where
    a: "makePostFromTree k u ps pm n st = Inr (r, st1)"
    and b: "displayRoots k u ps pm ns (appendChild PostArea r st1) = Inr st'"
    by (auto split: sum.splits)
  from makePostFromTree_frame [OF a Cons.prems(2)] have f:
    "postArea st1 = postArea st" "keepsItems st st1" "nextRef st \<le> r" "r < nextRef st1"
    "postPath (heap st1 r) = path n" "postTime (heap st1 r) = createdAt (meta n)"
    by auto
  define st2 where "st2 = appendChild PostArea r st1"
  have area: "list_all (\<lambda>x. x < nextRef st) (postArea st)"
    using Cons.prems(2) by (simp add: areaAllocated_def)
  have pa2: "postArea st2 = postArea st @ [r]"
    unfolding st2_def using removeAll_fresh [OF area f(3)] f(1) by simp
  have k2: "keepsItems st st2"
    using f(2) unfolding st2_def keepsItems_def by simp
  have a2: "areaAllocated st2"
    using area f(2,4) pa2 unfolding areaAllocated_def st2_def keepsItems_def
    by (auto simp: list_all_iff)
  have rs2: "rootSequence st2 = rootSequence st @ [rootOf n]"
  proof -
    have "rootSequence st2 =
        map (\<lambda>x. (postPath (heap st2 x), postTime (heap st2 x))) (postArea st) @
        [(postPath (heap st2 r), postTime (heap st2 r))]"
      by (simp add: rootSequence_def pa2)
    also have "map (\<lambda>x. (postPath (heap st2 x), postTime (heap st2 x))) (postArea st) = rootSequence st"
      by (rule rootSequence_keeps [OF k2 Cons.prems(2)])
    also have "(postPath (heap st2 r), postTime (heap st2 r)) = rootOf n"
      unfolding st2_def using f(5,6) by (simp add: rootOf_def)
    finally show ?thesis .
  qed
  from Cons.IH [OF b [folded st2_def] a2] have ih:
    "areaAllocated st'" "keepsItems st2 st'" "rootSequence st' = rootSequence st2 @ map rootOf ns"
    by auto
  show ?case
    using ih(1) keepsItems_trans [OF k2 ih(2)] ih(3) rs2 by simp
qed

lemma logMissingParents_fields [simp]:
  "nextRef (logMissingParents ps st) = nextRef st"
  "postArea (logMissingParents ps st) = postArea st"
  "heap (logMissingParents ps st) = heap st"
  by (simp_all add: logMissingParents_def)

lemma displayAllPosts_sequence:
  assumes "displayAllPosts u posts st = Inr st'"
  shows "rootSequence st' =
           map rootOf (treeRoots (pinnedOf u posts)) @ map rootOf (treeRoots (generalOf u posts))"
proof -
  obtain a b where ab: "getPinnedPosts u posts ([], []) = (a, b)"
    by (cases "getPinnedPosts u posts ([], [])")
  have p: "pinnedOf u posts = sort_key (\<lambda>p. lastModifiedAt (meta p)) a"
    and g: "generalOf u posts = sort_key (\<lambda>p. createdAt (meta p)) b"
    by (simp_all add: pinnedOf_def generalOf_def ab)
  define st0 where "st0 = logMissingParents (pinnedOf u posts) (st\<lparr> postArea := [] \<rparr>)"
  from assms obtain st1 where
    1: "displayRoots (Suc (length posts)) u (pinnedOf u posts) True (treeRoots (pinnedOf u posts)) st0
          = Inr st1"
    and 2: "displayRoots (Suc (length posts)) u (generalOf u posts) False
              (treeRoots (generalOf u posts)) (logMissingParents (generalOf u posts) st1) = Inr st'"
    unfolding displayAllPosts_def ab prod.case Let_def p [symmetric] g [symmetric] st0_def
    by (auto split: sum.splits)
  have a0: "areaAllocated st0" and r0: "rootSequence st0 = []"
    by (simp_all add: st0_def areaAllocated_def rootSequence_def)
  from displayRoots_sequence [OF 1 a0] have s1:
    "areaAllocated st1" "rootSequence st1 = map rootOf (treeRoots (pinnedOf u posts))"
    using r0 by auto
  define st1' where "st1' = logMissingParents (generalOf u posts) st1"
  have a1: "areaAllocated st1'" and r1: "rootSequence st1' = rootSequence st1"
    using s1(1) by (simp_all add: st1'_def areaAllocated_def rootSequence_def)
  from displayRoots_sequence [OF 2 [folded st1'_def] a1] show ?thesis
    using r1 s1(2) by simp
qed

lemma classify_cases:
  "classify u (pn, gn) x = (pn @ [x], gn) \<or> classify u (pn, gn) x = (pn, gn @ [x])"
  by (simp add: classify_def split: option.splits)

lemma distinct_move:
  assumes "distinct (map f (a @ b @ x # c))"
  shows "distinct (map f ((a @ [x]) @ b @ c))" and "distinct (map f (a @ (b @ [x]) @ c))"
  using assms by fastforce+

lemma foldl_classify_distinct:
  "distinct (map path (pn @ gn @ xs)) \<Longrightarrow>
   distinct (map path (fst (foldl (classify u) (pn, gn) xs) @ snd (foldl (classify u) (pn, gn) xs)))"
proof (induction xs arbitrary: pn gn)
  case Nil
  then show ?case by simp
next
  case (Cons x xs)
  from classify_cases [of u pn gn x] show ?case
  proof
    assume c: "classify u (pn, gn) x = (pn @ [x], gn)"
    from Cons.IH [OF distinct_move(1) [OF Cons.prems]] show ?thesis
      by (simp add: c)
  next
    assume c: "classify u (pn, gn) x = (pn, gn @ [x])"
    from Cons.IH [OF distinct_move(2) [OF Cons.prems]] show ?thesis
      by (simp add: c)
  qed
qed

lemma getPinnedPosts_distinct:
  assumes "distinct (map path posts)"
  shows "distinct (map path (fst (getPinnedPosts u posts ([], []))))"
    and "distinct (map path (snd (getPinnedPosts u posts ([], []))))"
proof -
  have "distinct (map path (sort_key (\<lambda>p. createdAt (meta p)) posts))"
    using assms by (simp add: distinct_map)
  then have "distinct (map path ([] @ [] @ sort_key (\<lambda>p. createdAt (meta p)) posts))"
    by simp
  from foldl_classify_distinct [OF this, of u]
  show "distinct (map path (fst (getPinnedPosts u posts ([], []))))"
    and "distinct (map path (snd (getPinnedPosts u posts ([], []))))"
    by (simp_all add: getPinnedPosts_def)
qed

lemma foldl_pick:
  assumes "\<forall>p \<in> set xs. path p = path c \<longrightarrow> p = c"
  shows "foldl (\<lambda>node p. if path p = path c then p else node) acc xs =
           (if c \<in> set xs then c else acc)"
  using assms
proof (induction xs arbitrary: acc)
  case Nil
  show ?case by simp
next
  case (Cons x xs)
  have ih: "foldl (\<lambda>node p. if path p = path c then p else node) a xs =
              (if c \<in> set xs then c else a)" for a
    using Cons.IH Cons.prems by simp
  show ?case
  proof (cases "path x = path c")
    case True
    with Cons.prems have "x = c" by simp
    then show ?thesis by (simp only: foldl_Cons ih if_True list.set insertI1 refl if_cancel)
  next
    case False
    then have "c \<noteq> x" by blast
    then show ?thesis
      using False by (simp only: foldl_Cons ih if_False set_ConsD list.set insert_iff simp_thms)
  qed
qed

lemma nodeOf_distinct:
  assumes "distinct (map path ps)" "c \<in> set ps"
  shows "nodeOf ps c = c"
proof -
  have "\<forall>p \<in> set ps. path p = path c \<longrightarrow> p = c"
    using assms by (meson distinct_map inj_onD)
  from foldl_pick [OF this] show ?thesis
    using assms(2) by (simp add: nodeOf_def)
qed

lemma treeRoots_distinct:
  assumes "distinct (map path ps)"
  shows "treeRoots ps = filter (\<lambda>p. parentPath p = None) ps"
  unfolding treeRoots_def
  by (rule map_idI) (simp add: nodeOf_distinct [OF assms])

text \<open>
  The part of C5 that holds on building: after \<open>displayAllPosts\<close> the page shows the
  roots of the pinned posts and then the roots of the general posts; when the paths of
  the snapshot are pairwise distinct, the pinned roots are in non-decreasing order of
  \<open>lastModifiedAt\<close> and the general roots in non-decreasing order of \<open>createdAt\<close>.
\<close>

lemma displayAllPosts_orders_roots:
  assumes "displayAllPosts u posts st = Inr st'" and "distinct (map path posts)"
  shows "rootSequence st' =
           map rootOf (treeRoots (pinnedOf u posts)) @ map rootOf (treeRoots (generalOf u posts)) \<and>
         sorted (map (\<lambda>p. lastModifiedAt (meta p)) (treeRoots (pinnedOf u posts))) \<and>
         sorted (map (\<lambda>p. createdAt (meta p)) (treeRoots (generalOf u posts)))"
proof -
  have dp: "distinct (map path (pinnedOf u posts))"
    using getPinnedPosts_distinct(1) [OF assms(2), of u] by (simp add: pinnedOf_def distinct_map)
  have dg: "distinct (map path (generalOf u posts))"
    using getPinnedPosts_distinct(2) [OF assms(2), of u] by (simp add: generalOf_def distinct_map)
  have "sorted (map (\<lambda>p. lastModifiedAt (meta p)) (treeRoots (pinnedOf u posts)))"
    unfolding treeRoots_distinct [OF dp] unfolding pinnedOf_def
    by (rule sorted_filter) (rule sorted_sort_key)
  moreover have "sorted (map (\<lambda>p. createdAt (meta p)) (treeRoots (generalOf u posts)))"
    unfolding treeRoots_distinct [OF dg] unfolding generalOf_def
    by (rule sorted_filter) (rule sorted_sort_key)
  ultimately show ?thesis
    using displayAllPosts_sequence [OF assms(1)] by simp
qed

section \<open>Theorems: what togglePin moves between the maps\<close>

text \<open>
  The part of C2 that holds: pinning a displayed post takes its path and the paths of
  its direct replies out of \<open>allPostMapping\<close> and enters them in \<open>pinnedPostMapping\<close>, and
  changes no other key, also when the final \<open>insertBefore\<close> throws. The replies of the
  replies are not in \<open>childPaths\<close>: they stay where they were.
\<close>

lemma setElement_children [simp]:
  "childrenItems (setElement i e item) = childrenItems item"
  by (simp add: setElement_def)

lemma enablePostButton_children [simp]:
  "childrenItems (enablePostButton k item) = childrenItems item"
  using enablePostButton_cases [of k item] by (auto simp del: set_simps)

lemma keys_delete:
  "fst ` set (AList.delete k al) = fst ` set al - {k}"
  by (induct al) auto

lemma keys_mapSet:
  "generalKeys (mapSet pm k r st) = (if pm then generalKeys st else insert k (generalKeys st))"
  "pinnedKeys (mapSet pm k r st) = (if pm then insert k (pinnedKeys st) else pinnedKeys st)"
  by (simp_all add: mapSet_def generalKeys_def pinnedKeys_def dom_update)

lemma keys_mapDelete:
  "generalKeys (mapDelete pm k st) = (if pm then generalKeys st else generalKeys st - {k})"
  "pinnedKeys (mapDelete pm k st) = (if pm then pinnedKeys st - {k} else pinnedKeys st)"
  by (simp_all add: mapDelete_def generalKeys_def pinnedKeys_def keys_delete)

lemma heap_mapSet_mapDelete [simp]:
  "heap (mapDelete pm k st) = heap st"
  "heap (mapSet pm k r st) = heap st"
  by (simp_all add: mapDelete_def mapSet_def)

lemma fold_move_keys:
  "heap (fold (\<lambda>child s. mapSet True (postPath (heap s child)) child
                          (mapDelete False (postPath (heap s child)) s)) cs st) = heap st \<and>
   generalKeys (fold (\<lambda>child s. mapSet True (postPath (heap s child)) child
                          (mapDelete False (postPath (heap s child)) s)) cs st)
     = generalKeys st - (\<lambda>c. postPath (heap st c)) ` set cs \<and>
   pinnedKeys (fold (\<lambda>child s. mapSet True (postPath (heap s child)) child
                          (mapDelete False (postPath (heap s child)) s)) cs st)
     = pinnedKeys st \<union> (\<lambda>c. postPath (heap st c)) ` set cs"
proof (induction cs arbitrary: st)
  case Nil
  show ?case by simp
next
  case (Cons c cs)
  define st1 where "st1 = mapSet True (postPath (heap st c)) c (mapDelete False (postPath (heap st c)) st)"
  have h: "heap st1 = heap st"
    by (simp add: st1_def)
  have g: "generalKeys st1 = generalKeys st - {postPath (heap st c)}"
    and p: "pinnedKeys st1 = insert (postPath (heap st c)) (pinnedKeys st)"
    by (simp_all add: st1_def keys_mapSet keys_mapDelete)
  from Cons.IH [of st1] show ?case
    unfolding fold_Cons comp_apply st1_def [symmetric] h g p by auto
qed

lemma moveChildren_pin:
  "heap (moveChildren False e st) = heap st"
  "generalKeys (moveChildren False e st) = generalKeys st - childPaths st e"
  "pinnedKeys (moveChildren False e st) = pinnedKeys st \<union> childPaths st e"
  using fold_move_keys [of "childrenItems (heap st e)" st]
  by (simp_all add: moveChildren_def childPaths_def)

lemma keys_insertBefore:
  "generalKeys (stateAfter (insertBefore c r f st)) = generalKeys st"
  "pinnedKeys (stateAfter (insertBefore c r f st)) = pinnedKeys st"
  by (cases c; simp add: insertBefore_def stateAfter_def generalKeys_def pinnedKeys_def
        appendChild_def setChildNodes_def detach_def updateItem_def Let_def split: option.splits)+

lemma togglePin_moves_node_and_children:
  assumes "map_of (allPostMapping st) p = Some e"
    and "postPath (heap st e) = p"
    and "getElementById (heap st e) (''pin-'' @ p) = Some (Button cl d)"
  shows "generalKeys (stateAfter (togglePin p False st)) = generalKeys st - ({p} \<union> childPaths st e)"
    and "pinnedKeys (stateAfter (togglePin p False st)) = pinnedKeys st \<union> {p} \<union> childPaths st e"
proof -
  define st1 where "st1 = updateItem e
      (\<lambda>item. enablePostButton ''pin''
          (setElement (''pin-'' @ p) (Button (classList_add ''pinned'' cl) d) item)) st"
  have path1: "postPath (heap st1 j) = postPath (heap st j)" for j
    by (simp add: st1_def updateItem_def)
  have ch1: "childrenItems (heap st1 e) = childrenItems (heap st e)"
    by (simp add: st1_def updateItem_def)
  have cp1: "childPaths (mapSet True p e (mapDelete False p st1)) e = childPaths st e"
    by (simp add: childPaths_def path1 ch1)
  have k1: "generalKeys st1 = generalKeys st" "pinnedKeys st1 = pinnedKeys st"
    by (simp_all add: st1_def generalKeys_def pinnedKeys_def updateItem_def)
  have p1: "postPath (heap st1 e) = p"
    using assms(2) path1 by simp
  define st2 where "st2 = moveChildren False e (mapSet True p e (mapDelete False p st1))"
  have t: "togglePin p False st = insertBefore PostArea e (getFirstUnpinned st2) st2"
    using assms(1,3) unfolding togglePin_def
    by (simp only: if_False option.case Element.case Let_def st1_def [symmetric] p1
          st2_def [symmetric])
  have g2: "generalKeys st2 = generalKeys st - ({p} \<union> childPaths st e)"
    unfolding st2_def moveChildren_pin cp1 by (auto simp: keys_mapSet keys_mapDelete k1)
  have p2: "pinnedKeys st2 = pinnedKeys st \<union> {p} \<union> childPaths st e"
    unfolding st2_def moveChildren_pin cp1 by (auto simp: keys_mapSet keys_mapDelete k1)
  show "generalKeys (stateAfter (togglePin p False st)) = generalKeys st - ({p} \<union> childPaths st e)"
    by (simp add: t keys_insertBefore g2)
  show "pinnedKeys (stateAfter (togglePin p False st)) = pinnedKeys st \<union> {p} \<union> childPaths st e"
    by (simp add: t keys_insertBefore p2)
qed

section \<open>Theorems: local reactions\<close>

lemma updateReactions_Inr:
  assumes "updateReactions p k b st = Inr st1"
  obtains r cl d tx d' where
    "lookupPost p st = Some r"
    and "getElementById (heap st r) (k @ ''-'' @ p) = Some (Button cl d)"
    and "getElementById (heap st r) (k @ ''-count-'' @ p) = Some (Paragraph tx)"
    and "lookupPost p st1 = Some r"
    and "getElementById (heap st1 r) (k @ ''-'' @ p) =
       Some (Button (if b then classList_remove ''reacted'' cl else classList_add ''reacted'' cl) d')"
    and "getElementById (heap st1 r) (k @ ''-count-'' @ p) = Some (Paragraph (countAfter b tx))"
    and "reactors (heap st1 r) = reactors (heap st r)"
    and "\<forall>j. j \<noteq> r \<longrightarrow> heap st1 j = heap st j"
proof -
  from assms obtain r where r: "lookupPost p st = Some r"
    by (auto simp: updateReactions_def split: option.splits)
  from assms r obtain cl d where b1: "getElementById (heap st r) (k @ ''-'' @ p) = Some (Button cl d)"
    by (auto simp: updateReactions_def split: option.splits Element.splits)
  from assms r b1 obtain tx where p1: "getElementById (heap st r) (k @ ''-count-'' @ p) = Some (Paragraph tx)"
    by (auto simp: updateReactions_def split: option.splits Element.splits)
  define cl1 where "cl1 = (if b then classList_remove ''reacted'' cl else classList_add ''reacted'' cl)"
  define item1 where "item1 = setElement (k @ ''-count-'' @ p) (Paragraph (countAfter b tx))
                                     (setElement (k @ ''-'' @ p) (Button cl1 d) (heap st r))"
  have st1: "st1 = updateItem r (\<lambda>item. enablePostButton k
                                  (setElement (k @ ''-count-'' @ p) (Paragraph (countAfter b tx))
                                     (setElement (k @ ''-'' @ p) (Button cl1 d) item))) st"
    using assms r b1 p1 by (simp add: updateReactions_def cl1_def Let_def)
  have h: "heap st1 r = enablePostButton k item1"
    by (simp add: st1 heap_updateItem item1_def)
  have i1b: "getElementById item1 (k @ ''-'' @ p) = Some (Button cl1 d)"
    using b1 p1 by (simp add: item1_def getElementById_setElement)
  have i1p: "getElementById item1 (k @ ''-count-'' @ p) = Some (Paragraph (countAfter b tx))"
    using b1 p1 by (simp add: item1_def getElementById_setElement)
  obtain d' where e1: "getElementById (heap st1 r) (k @ ''-'' @ p) = Some (Button cl1 d')"
    using getElementById_enable_Button [OF i1b, of k] h by auto
  have e2: "getElementById (heap st1 r) (k @ ''-count-'' @ p) = Some (Paragraph (countAfter b tx))"
    using getElementById_enable_Paragraph [OF i1p, of k] h by simp
  have e3: "reactors (heap st1 r) = reactors (heap st r)"
    by (simp add: h item1_def)
  have e4: "lookupPost p st1 = Some r"
    by (simp add: st1 r)
  have e5: "\<forall>j. j \<noteq> r \<longrightarrow> heap st1 j = heap st j"
    by (simp add: st1 heap_updateItem)
  show thesis
    by (rule that [OF r b1 p1 e4 e1 [unfolded cl1_def] e2 e3 e5])
qed


lemma countAfter_toString:
  "countAfter False (toString (Some n)) = (if n = - 1 then '''' else toString (Some (n + 1)))"
  "countAfter True (toString (Some n)) = (if n = 1 then '''' else toString (Some (n - 1)))"
  by (simp_all add: countAfter_def Let_def parseInt_toString toString_nonempty)

lemma countAfter_empty:
  "countAfter False '''' = toString (Some 1)"
  "countAfter True '''' = toString (Some (- 1))"
  by (simp_all add: countAfter_def Let_def)


text \<open>
  The count texts stay canonical: the constructor writes canonical texts, and
  \<open>updateReactions\<close> turns a canonical text into a canonical text.
\<close>

lemma canonicalCount_empty: "canonicalCount ''''"
  by (simp add: canonicalCount_def)

lemma canonicalCount_toString: "n \<noteq> 0 \<Longrightarrow> canonicalCount (toString (Some n))"
  by (simp add: canonicalCount_def parseInt_toString)

lemma canonicalCount_countText: "canonicalCount (countText reactionNumbers i)"
  by (simp add: countText_def canonicalCount_toString canonicalCount_empty)

lemma canonicalCount_countAfter:
  assumes "canonicalCount t"
  shows "canonicalCount (countAfter b t)"
proof (cases "t = ''''")
  case True
  then show ?thesis
    by (cases b) (simp_all add: countAfter_empty canonicalCount_toString)
next
  case False
  with assms obtain n where n: "n \<noteq> 0" and t: "t = toString (Some n)"
    by (auto simp: canonicalCount_def split: option.splits)
  show ?thesis
  proof (cases b)
    case True
    then show ?thesis
      unfolding t using n
      by (cases "n = 1") (simp_all add: countAfter_toString canonicalCount_toString canonicalCount_empty)
  next
    case False
    then show ?thesis
      unfolding t using n
      by (cases "n = - 1") (simp_all add: countAfter_toString canonicalCount_toString canonicalCount_empty)
  qed
qed



lemma text_2: "toString (Some 2) = ''2''"
  by code_simp

lemma text_3: "toString (Some 3) = ''3''"
  by code_simp

lemma parse_2: "parseInt ''2'' = Some 2"
  by code_simp



text \<open>
  C10: \<open>updateReactions\<close> on a path that is a key of neither map throws, with the state
  as it was. A path is resolved in \<open>allPostMapping\<close> first and in \<open>pinnedPostMapping\<close>
  only when \<open>allPostMapping\<close> does not have it; when the call succeeds, the item so
  resolved is the only item of the store that has changed.
\<close>

theorem C10_updateReactions_unknown_path_throws:
  "(p \<notin> fst ` set (allPostMapping st) \<and> p \<notin> fst ` set (pinnedPostMapping st) \<longrightarrow>
      updateReactions p k b st = Inl (Error ''The post with the specified path is undefined'', st)) \<and>
   (map_of (allPostMapping st) p = Some g \<longrightarrow> lookupPost p st = Some g) \<and>
   (map_of (allPostMapping st) p = None \<longrightarrow> lookupPost p st = map_of (pinnedPostMapping st) p) \<and>
   (updateReactions p k b st = Inr st' \<longrightarrow>
      (\<exists>r. lookupPost p st = Some r \<and> (\<forall>j. j \<noteq> r \<longrightarrow> heap st' j = heap st j)))"
proof (intro conjI impI)
  assume "p \<notin> fst ` set (allPostMapping st) \<and> p \<notin> fst ` set (pinnedPostMapping st)"
  then have "map_of (allPostMapping st) p = None" "map_of (pinnedPostMapping st) p = None"
    by (simp_all add: map_of_eq_None_iff)
  then show "updateReactions p k b st =
      Inl (Error ''The post with the specified path is undefined'', st)"
    by (simp add: updateReactions_def lookupPost_def)
next
  assume "map_of (allPostMapping st) p = Some g"
  then show "lookupPost p st = Some g"
    by (simp add: lookupPost_def)
next
  assume "map_of (allPostMapping st) p = None"
  then show "lookupPost p st = map_of (pinnedPostMapping st) p"
    by (simp add: lookupPost_def)
next
  assume a: "updateReactions p k b st = Inr st'"
  show "\<exists>r. lookupPost p st = Some r \<and> (\<forall>j. j \<noteq> r \<longrightarrow> heap st' j = heap st j)"
    by (rule updateReactions_Inr [OF a]) (intro exI conjI, assumption+)
qed

theorem C10_updateReactions_witness:
  "updateReactions ''/C'' ''like'' False twoEntries =
     Inl (Error ''The post with the specified path is undefined'', twoEntries) \<and>
   lookupPost ''/A'' twoEntries = Some 1 \<and>
   lookupPost ''/B'' twoEntries = Some 0"
  using C10_updateReactions_unknown_path_throws [of "''/C''" twoEntries "''like''" False 0 twoEntries]
    C10_updateReactions_unknown_path_throws [of "''/A''" twoEntries "''like''" False 1 twoEntries]
    C10_updateReactions_unknown_path_throws [of "''/B''" twoEntries "''like''" False 0 twoEntries]
  by (simp add: twoEntries_def initPostView_def)

section \<open>Theorems: the listener for stream updates\<close>

text \<open>
  C3: an update that the stream attributes to the logged-in user (\<open>lastModifiedBy\<close> is
  the user's name, so the id built by \<open>Model.subscribe\<close> ends with it) leaves the view
  exactly as it was, whatever the view's state, and so as the local call left it.
\<close>

theorem C3_self_echo_is_discarded:
  "lastModifiedBy (meta post) = username \<Longrightarrow>
   updatePostEvent username (eventId i post) post st = st"
  by (simp add: updatePostEvent_def eventId_def endsWith_append)

theorem C3_self_echo_witness:
  "\<exists>st0 st1.
      displayAllPosts ''carol'' [likedPost] initPostView = Inr st0 \<and>
      updateReactions ''/A'' ''like'' True st0 = Inr st1 \<and>
      lastModifiedBy (meta likedPost) = ''carol'' \<and>
      updatePostEvent ''carol'' (eventId ''17'' likedPost) likedPost st1 = st1"
proof -
  have "\<exists>st0 st1. displayAllPosts ''carol'' [likedPost] initPostView = Inr st0 \<and>
     updateReactions ''/A'' ''like'' True st0 = Inr st1"
    by (simp add: likedPost_def view_defs text_2 text_3 parse_2)
  then obtain st0 st1 where s:
    "displayAllPosts ''carol'' [likedPost] initPostView = Inr st0"
    "updateReactions ''/A'' ''like'' True st0 = Inr st1"
    by (elim exE conjE)
  have l: "lastModifiedBy (meta likedPost) = ''carol''"
    by (simp add: likedPost_def)
  from C3_self_echo_is_discarded [OF l, of "''17''" st1] s l show ?thesis
    by (intro exI [of _ st0] exI [of _ st1] conjI)
qed

section \<open>Theorems: stream updates on a path of the general map\<close>

text \<open>
  The part of C4 that holds: for a path that \<open>allPostMapping\<close> knows, an update whose
  reaction sets have the members of the stored ones is discarded by \<open>updatePosts\<close>, in
  every branch, and the view is unchanged. (\<open>findReactor\<close> then compares equal counts
  and answers \<open>same\<close>; the pins are never compared.)
\<close>

lemma sameMembers_length: "sameMembers a b \<Longrightarrow> arrayLength a = arrayLength b"
proof -
  assume s: "sameMembers a b"
  then have "length (members a) = length (members b)"
    unfolding sameMembers_def by (metis distinct_card)
  then show ?thesis
    by (simp add: arrayLength_def members_def split: option.splits)
qed

lemma getReactions_kindsOf: "getReactions r = map arrayLength (kindsOf r)"
  by (simp add: getReactions_def kindsOf_def arrayLength_def split: option.splits)

lemma list_all2_map_eq:
  "list_all2 P xs ys \<Longrightarrow> (\<And>x y. P x y \<Longrightarrow> f x = f y) \<Longrightarrow> map f xs = map f ys"
  by (induction xs ys rule: list_all2_induct) auto

lemma sameReactions_counts: "sameReactions a b \<Longrightarrow> getReactions a = getReactions b"
  unfolding getReactions_kindsOf sameReactions_def
  by (erule list_all2_map_eq) (rule sameMembers_length)

lemma findReactorStep_same:
  "findReactorStep ns ns newReactors oldReactors username v = Some ''same''"
  by (simp add: findReactorStep_def split: option.splits)

lemma findReactor_same:
  "findReactor (getReactions r) (getReactions r) newReactors oldReactors = Some ''same''"
  by (simp add: findReactor_def getReactions_def findReactorStep_same split: option.splits)

lemma updateKnown_discards:
  assumes "getReactions (reactions (doc post)) = getReactions (reactors (heap st replace))"
  shows "updateKnown post currentUser replace st = Inr (True, st)"
  using assms findReactor_same [of "reactors (heap st replace)"]
  by (simp add: updateKnown_def Let_def)

lemma updatePosts_discards_duplicate_in_general:
  assumes "map_of (allPostMapping st) (path post) = Some replace"
    and "sameReactions (reactions (doc post)) (reactors (heap st replace))"
  shows "updatePosts post i currentUser st = Inr st"
  using assms(1) updateKnown_discards [OF sameReactions_counts [OF assms(2)]]
  by (simp add: updatePosts_def)

section \<open>Theorems: stream messages\<close>







end
